theory Spec2Isabelle
  imports Complex_Main
begin

section \<open>The dharma reasoning loop of \<open>app/(preview)/api/chat/route.ts\<close>\<close>

text \<open>
  The development embeds the request handler \<open>POST\<close> of \<open>route.ts\<close> together with
  \<open>lib/dharma.ts\<close> (\<open>mean\<close>, \<open>generateDharmaFeedback\<close>, \<open>generateSimpleFeedback\<close>) and
  \<open>lib/schema.ts\<close> (\<open>dharmaSchema\<close>).

  Conventions of the embedding:
  \<^item> A JavaScript number is a finite IEEE 754 double, represented by its real value; the
    sum and the quotient of two numbers are rounded to the nearest double, ties to even.
    A decimal literal of the source that is not a double is written as the double nearest
    to it. A count (\<open>stepIndex\<close>, \<open>DHARMA_MAX_STEPS\<close>) is a natural number. Strings are lists
    of characters.
  \<^item> The language model behind \<open>generateText\<close>, and the built-ins \<open>JSON.parse\<close>,
    \<open>Number.prototype.toFixed\<close> and \<open>String.prototype.trim\<close>, are parameters collected in
    the record \<open>env\<close>. A call
    that throws returns \<open>Inl\<close>. The model's answer may depend on the number of calls made
    before, so that the same request can be answered differently each time.
  \<^item> The mutable variables of the handler (\<open>iterationState\<close>, \<open>scoreHistory\<close>,
    \<open>shouldContinue\<close>) and its effects (the requests sent to the model, the events written
    to \<open>dataStream\<close>, the console records) are the fields of one record that every
    operation takes and returns.
  \<^item> The prompt of the feedback call is a fixed text around the current scores, their mean,
    the score history and the target; it is represented by these four values. The run
    identifier and the measured latencies are left out of the console records, and so are
    the two console lines that carry nothing else.
  \<^item> The inbound \<open>messages\<close> are a list of role and content pairs, and writing to
    \<open>dataStream\<close> or to the console does not throw.
\<close>

subsection \<open>Strings\<close>

text \<open>Decimal rendering of a count, as a template literal renders an integer.\<close>

definition digit :: "nat \<Rightarrow> char" where
  "digit d = ''0123456789'' ! d"

fun show_nat :: "nat \<Rightarrow> string" where
  "show_nat n = (if n < 10 then [digit n] else show_nat (n div 10) @ [digit (n mod 10)])"

declare show_nat.simps [simp del]

text \<open>\<open>Array.prototype.join\<close> on strings.\<close>

fun join :: "string \<Rightarrow> string list \<Rightarrow> string" where
  "join sep [] = []"
| "join sep [x] = x"
| "join sep (x # y # ys) = x @ sep @ join sep (y # ys)"

subsection \<open>JavaScript numbers\<close>

text \<open>
  The binade of a real \<open>x\<close> is the exponent \<open>k\<close> with \<open>2 powi k \<le> \<bar>x\<bar> < 2 powi (k + 1)\<close>,
  and - 1022, the exponent of the subnormal doubles, for everything smaller. It is found
  by a search upwards from 0 or downwards from - 1. Doubles of one binade are spaced
  \<open>2 powi (k - 52)\<close> apart. A magnitude that reaches \<open>2 powi 1024\<close>, where the source has
  \<open>Infinity\<close>, is outside the model.
\<close>

function binade_up :: "real \<Rightarrow> int \<Rightarrow> int" where
  "binade_up x k = (if k < 1023 \<and> 2 powi (k + 1) \<le> x then binade_up x (k + 1) else k)"
  by pat_completeness auto
termination
  by (relation "measure (\<lambda>(x, k). nat (1023 - k))") auto

function binade_down :: "real \<Rightarrow> int \<Rightarrow> int" where
  "binade_down x k = (if - 1022 < k \<and> x < 2 powi k then binade_down x (k - 1) else k)"
  by pat_completeness auto
termination
  by (relation "measure (\<lambda>(x, k). nat (k + 1022))") auto

declare binade_up.simps [simp del] binade_down.simps [simp del]

definition binade :: "real \<Rightarrow> int" where
  "binade x = (if 1 \<le> \<bar>x\<bar> then binade_up \<bar>x\<bar> 0 else binade_down \<bar>x\<bar> (- 1))"

definition ulp :: "real \<Rightarrow> real" where
  "ulp x = 2 powi (binade x - 52)"

text \<open>Rounding to the nearest integer, a tie to the even one.\<close>

definition roundTiesToEven :: "real \<Rightarrow> int" where
  "roundTiesToEven q =
     (let f = \<lfloor>q\<rfloor>; d = q - of_int f
      in if d < 1 / 2 then f
         else if 1 / 2 < d then f + 1
         else if even f then f else f + 1)"

text \<open>The double nearest to a real, and the operators \<open>+\<close> and \<open>/\<close> on numbers.\<close>

definition round64 :: "real \<Rightarrow> real" where
  "round64 x = of_int (roundTiesToEven (x / ulp x)) * ulp x"

definition number_add :: "real \<Rightarrow> real \<Rightarrow> real" where
  "number_add x y = round64 (x + y)"

definition number_div :: "real \<Rightarrow> real \<Rightarrow> real" where
  "number_div x y = round64 (x / y)"

subsection \<open>\<open>lib/dharma.ts\<close> and \<open>lib/schema.ts\<close>: data\<close>

record 'a DharmaScores =
  mindfulness :: 'a
  emptiness :: 'a
  nonDuality :: 'a
  boundlessCare :: 'a

text \<open>The output type of \<open>dharmaSchema\<close>: the four scores and a rationale.\<close>

record DharmaEvaluation = "real DharmaScores" +
  rationale :: string

record ScoreHistoryEntry =
  step :: nat
  scores :: "real DharmaScores"
  mean :: real
  content :: string

text \<open>The output type of \<open>singleStepSchema\<close>, and the step enriched for the frontend.\<close>

record reasoningStep =
  title :: string
  content :: string
  dharma :: DharmaEvaluation

record enrichedStep = reasoningStep +
  nextStep :: string
  dharmaScore :: string
  dharmaBreakdown :: "string DharmaScores"
  stepIndex :: nat
  maxSteps :: nat
  serverFeedback :: string

subsection \<open>Requests to the language model\<close>

datatype prompt =
    Text string
  | FeedbackPrompt DharmaEvaluation real "ScoreHistoryEntry list" real

record message =
  role :: string
  content :: prompt

record request =
  model :: string
  system :: "string option"
  messages :: "message list"
  maxTokens :: nat
  temperature :: "real option"

datatype error = ServiceError string | NoJSONFound | SyntaxError | ZodError

subsection \<open>JSON values and the schemas\<close>

datatype json =
    JNull
  | JBool bool
  | JNumber real
  | JString string
  | JArray "json list"
  | JObject "(string \<times> json) list"

text \<open>Property access on a parsed value; \<open>None\<close> is \<open>undefined\<close>.\<close>

fun getProp :: "json \<Rightarrow> string \<Rightarrow> json option" where
  "getProp (JObject kvs) k = map_of kvs k"
| "getProp _ k = None"

text \<open>\<open>z.string()\<close> and \<open>z.number().min(0).max(1)\<close>; \<open>None\<close> is a validation issue.\<close>

fun z_string :: "json option \<Rightarrow> string option" where
  "z_string (Some (JString s)) = Some s"
| "z_string _ = None"

fun z_number_min0_max1 :: "json option \<Rightarrow> real option" where
  "z_number_min0_max1 (Some (JNumber x)) = (if 0 \<le> x \<and> x \<le> 1 then Some x else None)"
| "z_number_min0_max1 _ = None"

fun is_object :: "json option \<Rightarrow> bool" where
  "is_object (Some (JObject kvs)) = True"
| "is_object _ = False"

definition dharmaSchema :: "json option \<Rightarrow> DharmaEvaluation option" where
  "dharmaSchema v =
     (case v of
        Some j \<Rightarrow>
          (if is_object v then
             (case (z_number_min0_max1 (getProp j ''mindfulness''),
                    z_number_min0_max1 (getProp j ''emptiness''),
                    z_number_min0_max1 (getProp j ''nonDuality''),
                    z_number_min0_max1 (getProp j ''boundlessCare''),
                    z_string (getProp j ''rationale'')) of
                (Some m, Some e, Some n, Some b, Some r) \<Rightarrow>
                  Some \<lparr>mindfulness = m, emptiness = e, nonDuality = n, boundlessCare = b,
                        rationale = r\<rparr>
              | _ \<Rightarrow> None)
           else None)
      | None \<Rightarrow> None)"

text \<open>\<open>singleStepSchema.parse\<close>: throws a \<open>ZodError\<close> unless every field validates.\<close>

definition singleStepSchema_parse :: "json \<Rightarrow> error + reasoningStep" where
  "singleStepSchema_parse stepData =
     (if is_object (Some stepData) then
        (case (z_string (getProp stepData ''title''),
               z_string (getProp stepData ''content''),
               dharmaSchema (getProp stepData ''dharma'')) of
           (Some t, Some c, Some d) \<Rightarrow>
             Inr \<lparr>reasoningStep.title = t, content = c, dharma = d\<rparr>
         | _ \<Rightarrow> Inl ZodError)
      else Inl ZodError)"

subsection \<open>\<open>lib/dharma.ts\<close>: scoring and feedback\<close>

definition mean :: "(real, 'b) DharmaScores_scheme \<Rightarrow> real" where
  "mean sc =
     number_div
       (number_add (number_add (number_add (mindfulness sc) (emptiness sc)) (nonDuality sc))
          (boundlessCare sc))
       4"

definition generateSimpleFeedback :: "(real, 'b) DharmaScores_scheme \<Rightarrow> real \<Rightarrow> string" where
  "generateSimpleFeedback sc target =
     (let suggestions = [];
          suggestions = (if mindfulness sc < target
            then suggestions @ [''Strengthen mindfulness: explicitly note assumptions and limitations.'']
            else suggestions);
          suggestions = (if emptiness sc < target
            then suggestions @ [''Strengthen emptiness: hold conclusions more lightly, acknowledge uncertainty.'']
            else suggestions);
          suggestions = (if nonDuality sc < target
            then suggestions @ [''Strengthen non-duality: consider complementary perspectives and interconnections.'']
            else suggestions);
          suggestions = (if boundlessCare sc < target
            then suggestions @ [''Strengthen boundless care: expand consideration of all stakeholders and potential harms.'']
            else suggestions)
      in if length suggestions = 0
         then ''Strong alignment across all principles. Maintain this contemplative depth.''
         else join '' '' suggestions)"

text \<open>
  What the handler can observe of the outside, and what it does to it: the requests sent
  to the model so far and the console records.
\<close>

datatype 'a log =
    Telemetry 'a
  | StepError nat error
  | FeedbackError error
  | SynthesisError error
  | SessionCompleted nat

record telemetry =
  stepIndex :: nat
  maxSteps :: nat
  modelSelfScore :: string
  modelScoreBreakdown :: "string DharmaScores"
  targetThreshold :: real
  targetReached :: bool
  terminationReason :: string
  shouldContinue :: bool
  title :: string
  feedbackLength :: nat

record world =
  calls :: "request list"
  console :: "telemetry log list"

definition feedbackRequest :: "DharmaEvaluation \<Rightarrow> ScoreHistoryEntry list \<Rightarrow> real \<Rightarrow> request" where
  "feedbackRequest currentScores history target =
     \<lparr>model = ''gpt-4o'', system = None,
      messages = [\<lparr>role = ''user'',
                   content = FeedbackPrompt currentScores (mean currentScores) history target\<rparr>],
      maxTokens = 250, temperature = Some (round64 0.3)\<rparr>"

definition generateDharmaFeedback ::
  "(nat \<Rightarrow> request \<Rightarrow> error + string) \<Rightarrow> (string \<Rightarrow> string) \<Rightarrow> DharmaEvaluation \<Rightarrow>
   ScoreHistoryEntry list \<Rightarrow> real \<Rightarrow> 'w world_scheme \<Rightarrow> string \<times> 'w world_scheme" where
  "generateDharmaFeedback gen trm currentScores history target w =
     (let req = feedbackRequest currentScores history target;
          w1 = w\<lparr>calls := calls w @ [req]\<rparr>
      in case gen (length (calls w)) req of
           Inr text \<Rightarrow> (trm text, w1)
         | Inl e \<Rightarrow>
             (generateSimpleFeedback currentScores target,
              w1\<lparr>console := console w1 @ [FeedbackError e]\<rparr>))"

subsection \<open>\<open>route.ts\<close>: configuration and session state\<close>

text \<open>
  The resolved configuration and the services the handler calls. \<open>generateText env n req\<close>
  is the answer to the request \<open>req\<close> when \<open>n\<close> requests were sent before it.
\<close>

record env =
  DHARMA_TARGET :: real
  DHARMA_MAX_STEPS :: nat
  generateText :: "nat \<Rightarrow> request \<Rightarrow> error + string"
  JSON_parse :: "string \<Rightarrow> json option"
  toFixed :: "real \<Rightarrow> nat \<Rightarrow> string"
  trim :: "string \<Rightarrow> string"

definition MINIMUM_STEPS :: nat where
  "MINIMUM_STEPS = 4"

datatype event = ReasoningStepEvent enrichedStep | TextEvent string

record session = world +
  stepIndex :: nat
  allSteps :: "enrichedStep list"
  previousFeedback :: string
  scoreHistory :: "ScoreHistoryEntry list"
  shouldContinue :: bool
  dataStream :: "event list"

definition initialSession :: session where
  "initialSession =
     \<lparr>calls = [], console = [], stepIndex = 0, allSteps = [], previousFeedback = [],
      scoreHistory = [], shouldContinue = True, dataStream = []\<rparr>"

subsection \<open>\<open>route.ts\<close>: building the context of a step\<close>

definition feedbackNote :: "nat \<Rightarrow> string \<Rightarrow> message" where
  "feedbackNote idx fb =
     \<lparr>role = ''assistant'',
      content = Text (''[Server Feedback from Step '' @ show_nat (idx - 1) @ '']: '' @ fb)\<rparr>"

definition stepInstruction :: "nat \<Rightarrow> nat \<Rightarrow> string \<Rightarrow> message" where
  "stepInstruction limit idx fb =
     \<lparr>role = ''user'',
      content = Text (''Generate reasoning step '' @ show_nat idx @ '' of '' @ show_nat limit @
        ''. \<newline>'' @
        ''Focus on ONE specific aspect, method, or perspective. \<newline>'' @
        ''Be thorough in your analysis and evaluate your reasoning against the dharma principles.\<newline>'' @
        (if fb \<noteq> [] then ''\<newline>\<newline>Incorporate the server feedback from your previous step.''
         else []))\<rparr>"

definition contextMessages :: "nat \<Rightarrow> message list \<Rightarrow> nat \<Rightarrow> string \<Rightarrow> message list" where
  "contextMessages limit msgs idx fb =
     (let ctx = msgs;
          ctx = (if idx > 1 \<and> fb \<noteq> [] then ctx @ [feedbackNote idx fb] else ctx)
      in ctx @ [stepInstruction limit idx fb])"

definition systemMessage :: string where
  \<open>systemMessage =
     ''You are an expert AI assistant that explains your reasoning step by step while cultivating contemplative wisdom.\<newline>'' @
     ''\<newline>'' @
     ''Your task: Generate ONE reasoning step that explores a specific aspect of the problem.\<newline>'' @
     ''\<newline>'' @
     ''CONTEMPLATIVE DHARMA PRINCIPLES:\<newline>'' @
     ''For each reasoning step, you must evaluate four principles (0-1 scale):\<newline>'' @
     ''\<newline>'' @
     ''1. MINDFULNESS (Meta-Awareness): Are you monitoring your own reasoning process, noticing assumptions and biases?\<newline>'' @
     ''2. EMPTINESS (Conceptual Flexibility): Are you holding conclusions provisionally and acknowledging uncertainty?\<newline>'' @
     ''3. NON-DUALITY (Relational Thinking): Are you recognizing interdependence and multiple valid perspectives?\<newline>'' @
     ''4. BOUNDLESS CARE (Universal Consideration): Are you considering impact on all affected parties?\<newline>'' @
     ''\<newline>'' @
     ''Respond with a JSON object containing:\<newline>'' @
     ''- title: A concise title for this reasoning step\<newline>'' @
     ''- content: Your detailed reasoning (be thorough, show your work)\<newline>'' @
     ''- dharma: Your self-evaluation of the four principles with rationale\<newline>'' @
     ''\<newline>'' @
     ''Example:\<newline>'' @
     ''{\<newline>'' @
     ''  "title": "Initial Analysis of Core Problem",\<newline>'' @
     ''  "content": "Let me start by breaking down the key assumptions...",\<newline>'' @
     ''  "dharma": {\<newline>'' @
     ''    "mindfulness": 0.8,\<newline>'' @
     ''    "emptiness": 0.7,\<newline>'' @
     ''    "nonDuality": 0.6,\<newline>'' @
     ''    "boundlessCare": 0.7,\<newline>'' @
     ''    "rationale": "I'm aware of my reasoning process and acknowledging limitations..."\<newline>'' @
     ''  }\<newline>'' @
     ''}''\<close>

definition stepRequest :: "message list \<Rightarrow> request" where
  "stepRequest ctx =
     \<lparr>model = ''gpt-4o'', system = Some systemMessage, messages = ctx, maxTokens = 2000,
      temperature = None\<rparr>"

subsection \<open>\<open>route.ts\<close>: reading the model's answer\<close>

text \<open>
  \<open>text.match(/\{[\s\S]*\}/)\<close>: the leftmost longest match runs from the first opening
  brace to the last closing brace after it.
\<close>

definition jsonMatch :: "string \<Rightarrow> string option" where
  "jsonMatch txt =
     (let s = dropWhile (\<lambda>c. c \<noteq> CHR ''{'') txt
      in if CHR ''}'' \<in> set s then Some (rev (dropWhile (\<lambda>c. c \<noteq> CHR ''}'') (rev s)))
         else None)"

definition extractStepData :: "(string \<Rightarrow> json option) \<Rightarrow> string \<Rightarrow> error + json" where
  "extractStepData parse txt =
     (case jsonMatch txt of
        Some m \<Rightarrow> (case parse m of Some j \<Rightarrow> Inr j | None \<Rightarrow> Inl SyntaxError)
      | None \<Rightarrow> Inl NoJSONFound)"

definition fallbackStepData :: "nat \<Rightarrow> string \<Rightarrow> json" where
  "fallbackStepData idx txt =
     JObject [(''title'', JString (''Reasoning Step '' @ show_nat idx)),
              (''content'', JString txt),
              (''dharma'', JObject [(''mindfulness'', JNumber 0.5),
                                    (''emptiness'', JNumber 0.5),
                                    (''nonDuality'', JNumber 0.5),
                                    (''boundlessCare'', JNumber 0.5),
                                    (''rationale'', JString ''Auto-generated (parsing failed)'')])]"

text \<open>The inner \<open>try\<close>/\<open>catch\<close>: any failure to extract JSON gives the fallback object.\<close>

definition parseStepData :: "(string \<Rightarrow> json option) \<Rightarrow> nat \<Rightarrow> string \<Rightarrow> json" where
  "parseStepData parse idx txt =
     (case extractStepData parse txt of
        Inr j \<Rightarrow> j
      | Inl parseError \<Rightarrow> fallbackStepData idx txt)"

text \<open>
  The first part of the outer \<open>try\<close> block: the call to the model, the extraction and the
  schema validation. The call and the validation can both throw.
\<close>

definition generateStep :: "env \<Rightarrow> nat \<Rightarrow> request \<Rightarrow> nat \<Rightarrow> error + reasoningStep" where
  "generateStep env n req idx =
     (case generateText env n req of
        Inl e \<Rightarrow> Inl e
      | Inr txt \<Rightarrow> singleStepSchema_parse (parseStepData (JSON_parse env) idx txt))"

subsection \<open>\<open>route.ts\<close>: the termination logic and the loop\<close>

definition terminationLogic :: "nat \<Rightarrow> real \<Rightarrow> nat \<Rightarrow> real \<Rightarrow> bool \<times> string" where
  "terminationLogic limit target idx modelDharmaScore =
     (if idx \<ge> limit then (False, ''max_steps_reached'')
      else if idx < MINIMUM_STEPS then (True, ''minimum_steps_required'')
      else if modelDharmaScore \<ge> target then (False, ''target_reached'')
      else (True, ''continuing''))"

text \<open>The rest of the \<open>try\<close> block, once the step is validated.\<close>

definition completeStep :: "env \<Rightarrow> reasoningStep \<Rightarrow> session \<Rightarrow> session" where
  "completeStep env validatedStep st =
     (let modelDharmaScore = mean (dharma validatedStep);
          st1 = st\<lparr>scoreHistory := scoreHistory st @
                  [\<lparr>step = session.stepIndex st,
                    scores = \<lparr>mindfulness = mindfulness (dharma validatedStep),
                              emptiness = emptiness (dharma validatedStep),
                              nonDuality = nonDuality (dharma validatedStep),
                              boundlessCare = boundlessCare (dharma validatedStep)\<rparr>,
                    mean = modelDharmaScore,
                    content = reasoningStep.content validatedStep\<rparr>]\<rparr>;
          (llmFeedback, st2) =
             generateDharmaFeedback (generateText env) (trim env) (dharma validatedStep)
               (butlast (scoreHistory st1)) (DHARMA_TARGET env) st1;
          st3 = st2\<lparr>previousFeedback := llmFeedback\<rparr>;
          (continue, reason) =
             terminationLogic (DHARMA_MAX_STEPS env) (DHARMA_TARGET env) (session.stepIndex st3)
               modelDharmaScore;
          st4 = st3\<lparr>shouldContinue := continue\<rparr>;
          breakdown = \<lparr>mindfulness = toFixed env (mindfulness (dharma validatedStep)) 2,
                       emptiness = toFixed env (emptiness (dharma validatedStep)) 2,
                       nonDuality = toFixed env (nonDuality (dharma validatedStep)) 2,
                       boundlessCare = toFixed env (boundlessCare (dharma validatedStep)) 2\<rparr>;
          st5 = st4\<lparr>console := console st4 @
                  [Telemetry \<lparr>telemetry.stepIndex = session.stepIndex st4,
                              maxSteps = DHARMA_MAX_STEPS env,
                              modelSelfScore = toFixed env modelDharmaScore 3,
                              modelScoreBreakdown = breakdown,
                              targetThreshold = DHARMA_TARGET env,
                              targetReached = (modelDharmaScore \<ge> DHARMA_TARGET env),
                              terminationReason = reason,
                              shouldContinue = continue,
                              title = reasoningStep.title validatedStep,
                              feedbackLength = length llmFeedback\<rparr>]\<rparr>;
          enriched = \<lparr>reasoningStep.title = reasoningStep.title validatedStep,
                      content = reasoningStep.content validatedStep,
                      dharma = dharma validatedStep,
                      nextStep = (if continue then ''continue'' else ''finalAnswer''),
                      dharmaScore = toFixed env modelDharmaScore 3,
                      dharmaBreakdown = breakdown,
                      stepIndex = session.stepIndex st5,
                      maxSteps = DHARMA_MAX_STEPS env,
                      serverFeedback = llmFeedback\<rparr>;
          st6 = st5\<lparr>allSteps := allSteps st5 @ [enriched]\<rparr>
      in st6\<lparr>dataStream := dataStream st6 @ [ReasoningStepEvent enriched]\<rparr>)"

text \<open>One pass through the body of the \<open>while\<close> loop.\<close>

definition iteration :: "env \<Rightarrow> message list \<Rightarrow> session \<Rightarrow> session" where
  "iteration env msgs st =
     (let st1 = st\<lparr>stepIndex := session.stepIndex st + 1\<rparr>;
          req = stepRequest (contextMessages (DHARMA_MAX_STEPS env) msgs (session.stepIndex st1)
                  (previousFeedback st1));
          st2 = st1\<lparr>calls := calls st1 @ [req]\<rparr>
      in case generateStep env (length (calls st1)) req (session.stepIndex st1) of
           Inr validatedStep \<Rightarrow> completeStep env validatedStep st2
         | Inl e \<Rightarrow>
             st2\<lparr>console := console st2 @ [StepError (session.stepIndex st2) e],
                 shouldContinue := False\<rparr>)"

text \<open>The \<open>while\<close> loop of the handler.\<close>

function loop :: "env \<Rightarrow> message list \<Rightarrow> session \<Rightarrow> session" where
  "loop env msgs st =
     (if shouldContinue st \<and> session.stepIndex st < DHARMA_MAX_STEPS env
      then loop env msgs (iteration env msgs st)
      else st)"
  by pat_completeness auto
termination
  by (relation "measure (\<lambda>(env, msgs, st). DHARMA_MAX_STEPS env - session.stepIndex st)")
     (auto simp: iteration_def completeStep_def generateDharmaFeedback_def Let_def split_beta
           split: sum.split)

declare loop.simps [simp del]

subsection \<open>\<open>route.ts\<close>: the final synthesis\<close>

definition synthesisPrompt :: "nat \<Rightarrow> enrichedStep list \<Rightarrow> string" where
  "synthesisPrompt idx steps =
     ''You have completed '' @ show_nat idx @ '' reasoning steps:\<newline>'' @
     ''\<newline>'' @
     join ''\<newline>''
       (map (\<lambda>(i, s). ''\<newline>'' @
                  ''Step '' @ show_nat (i + 1) @ '': '' @ reasoningStep.title s @ ''\<newline>'' @
                  reasoningStep.content s @ ''\<newline>'')
          (enumerate 0 steps)) @ ''\<newline>'' @
     ''\<newline>'' @
     ''Now provide a clear, concise final answer that synthesizes all of your reasoning. \<newline>'' @
     ''Be direct and actionable. This is your final response to the user.''"

definition synthesisRequest :: "message list \<Rightarrow> nat \<Rightarrow> enrichedStep list \<Rightarrow> request" where
  "synthesisRequest msgs idx steps =
     \<lparr>model = ''gpt-4o'', system = None,
      messages = msgs @
        [\<lparr>role = ''assistant'', content = Text (synthesisPrompt idx steps)\<rparr>,
         \<lparr>role = ''user'',
          content = Text ''Please provide your final synthesized answer based on all reasoning steps.''\<rparr>],
      maxTokens = 1000, temperature = None\<rparr>"

definition synthesize :: "env \<Rightarrow> message list \<Rightarrow> session \<Rightarrow> session" where
  "synthesize env msgs st =
     (let st1 = st\<lparr>console := console st @ [SessionCompleted (session.stepIndex st)]\<rparr>;
          req = synthesisRequest msgs (session.stepIndex st1) (allSteps st1);
          st2 = st1\<lparr>calls := calls st1 @ [req]\<rparr>
      in case generateText env (length (calls st1)) req of
           Inr txt \<Rightarrow> st2\<lparr>dataStream := dataStream st2 @ [TextEvent txt]\<rparr>
         | Inl e \<Rightarrow>
             st2\<lparr>console := console st2 @ [SynthesisError e],
                 dataStream := dataStream st2 @
                   [TextEvent ''Error generating final synthesis. Please review the reasoning steps above.'']\<rparr>)"

text \<open>The \<open>execute\<close> callback of the streamed response: the loop, then the synthesis.\<close>

definition execute :: "env \<Rightarrow> message list \<Rightarrow> session" where
  "execute env msgs = synthesize env msgs (loop env msgs initialSession)"

subsection \<open>Observations on a session\<close>

text \<open>
  The outcome of the step generation in the iteration that starts in the state \<open>st\<close>: the
  validated step, or the error thrown to the outer \<open>catch\<close>.
\<close>

definition attempt :: "env \<Rightarrow> message list \<Rightarrow> session \<Rightarrow> error + reasoningStep" where
  "attempt env msgs st =
     generateStep env (length (calls st))
       (stepRequest (contextMessages (DHARMA_MAX_STEPS env) msgs (Suc (session.stepIndex st))
          (previousFeedback st)))
       (Suc (session.stepIndex st))"

text \<open>The answer of the model to the step request of the iteration that starts in \<open>st\<close>.\<close>

definition stepResponse :: "env \<Rightarrow> message list \<Rightarrow> session \<Rightarrow> error + string" where
  "stepResponse env msgs st =
     generateText env (length (calls st))
       (stepRequest (contextMessages (DHARMA_MAX_STEPS env) msgs (Suc (session.stepIndex st))
          (previousFeedback st)))"

text \<open>The termination reasons of the telemetry records, and the logged step errors.\<close>

fun reasonOf :: "telemetry log \<Rightarrow> string list" where
  "reasonOf (Telemetry t) = [terminationReason t]"
| "reasonOf _ = []"

definition reasons :: "session \<Rightarrow> string list" where
  "reasons st = concat (map reasonOf (console st))"

fun stepErrorOf :: "telemetry log \<Rightarrow> (nat \<times> error) list" where
  "stepErrorOf (StepError n e) = [(n, e)]"
| "stepErrorOf _ = []"

definition stepErrors :: "session \<Rightarrow> (nat \<times> error) list" where
  "stepErrors st = concat (map stepErrorOf (console st))"

text \<open>
  The arguments of the calls of \<open>generateDharmaFeedback\<close> (current scores, score history,
  target), read off the feedback requests, and the message lists sent with the step
  requests (the requests that carry the system message), both in the order of the calls.
\<close>

fun feedbackArgs :: "request \<Rightarrow> (DharmaEvaluation \<times> ScoreHistoryEntry list \<times> real) list" where
  "feedbackArgs r =
     (case messages r of
        [m] \<Rightarrow> (case message.content m of
                  FeedbackPrompt c mn h t \<Rightarrow> [(c, h, t)]
                | Text s \<Rightarrow> [])
      | _ \<Rightarrow> [])"

definition feedbackCalls :: "session \<Rightarrow> (DharmaEvaluation \<times> ScoreHistoryEntry list \<times> real) list" where
  "feedbackCalls st = concat (map feedbackArgs (calls st))"

definition stepContexts :: "session \<Rightarrow> message list list" where
  "stepContexts st = map messages (filter (\<lambda>r. system r = Some systemMessage) (calls st))"

text \<open>The history entry that the loop pushes for a recorded step.\<close>

definition entryOf :: "enrichedStep \<Rightarrow> ScoreHistoryEntry" where
  "entryOf s =
     \<lparr>step = enrichedStep.stepIndex s,
      scores = \<lparr>mindfulness = mindfulness (dharma s), emptiness = emptiness (dharma s),
                nonDuality = nonDuality (dharma s), boundlessCare = boundlessCare (dharma s)\<rparr>,
      mean = mean (dharma s),
      content = reasoningStep.content s\<rparr>"

text \<open>
  The step that the schema validation returns for the fallback object: the generic title,
  the raw answer as content, four scores of 0.5 and the rationale of the fallback.
\<close>

definition degradedStep :: "nat \<Rightarrow> string \<Rightarrow> reasoningStep" where
  "degradedStep idx txt =
     \<lparr>reasoningStep.title = ''Reasoning Step '' @ show_nat idx, content = txt,
      dharma = \<lparr>mindfulness = 0.5, emptiness = 0.5, nonDuality = 0.5, boundlessCare = 0.5,
                rationale = ''Auto-generated (parsing failed)''\<rparr>\<rparr>"

text \<open>
  Names for three parts of the loop body: the state after the counter is incremented and
  the step request is sent, the feedback that the generator returns for a validated step,
  and the enriched step that is recorded and streamed.
\<close>

definition enrich :: "env \<Rightarrow> reasoningStep \<Rightarrow> nat \<Rightarrow> string \<Rightarrow> enrichedStep" where
  "enrich env v idx fb =
     \<lparr>reasoningStep.title = reasoningStep.title v,
      content = reasoningStep.content v,
      dharma = dharma v,
      nextStep = (if fst (terminationLogic (DHARMA_MAX_STEPS env) (DHARMA_TARGET env) idx
                           (mean (dharma v)))
                  then ''continue'' else ''finalAnswer''),
      dharmaScore = toFixed env (mean (dharma v)) 3,
      dharmaBreakdown = \<lparr>mindfulness = toFixed env (mindfulness (dharma v)) 2,
                       emptiness = toFixed env (emptiness (dharma v)) 2,
                       nonDuality = toFixed env (nonDuality (dharma v)) 2,
                       boundlessCare = toFixed env (boundlessCare (dharma v)) 2\<rparr>,
      stepIndex = idx,
      maxSteps = DHARMA_MAX_STEPS env,
      serverFeedback = fb\<rparr>"

definition stepFeedback :: "env \<Rightarrow> reasoningStep \<Rightarrow> session \<Rightarrow> string" where
  "stepFeedback env v st =
     fst (generateDharmaFeedback (generateText env) (trim env) (dharma v) (scoreHistory st)
            (DHARMA_TARGET env) st)"

definition enter :: "env \<Rightarrow> message list \<Rightarrow> session \<Rightarrow> session" where
  "enter env msgs st =
     st\<lparr>stepIndex := Suc (session.stepIndex st),
        calls := calls st @
          [stepRequest (contextMessages (DHARMA_MAX_STEPS env) msgs (Suc (session.stepIndex st))
             (previousFeedback st))]\<rparr>"

text \<open>
  The counting invariant of the loop. While no step error is logged, every iteration has
  recorded its step, and the loop is only stopped at the ceiling or from the minimum on.
  After a step error the loop is stopped and the counter is one ahead of the recorded steps.
\<close>

definition counted :: "env \<Rightarrow> session \<Rightarrow> bool" where
  "counted env st \<longleftrightarrow>
     (if stepErrors st = []
      then length (allSteps st) = session.stepIndex st \<and>
           (\<not> shouldContinue st \<longrightarrow>
              DHARMA_MAX_STEPS env \<le> session.stepIndex st \<or> MINIMUM_STEPS \<le> session.stepIndex st)
      else \<not> shouldContinue st \<and> session.stepIndex st = Suc (length (allSteps st)) \<and>
           map fst (stepErrors st) = [session.stepIndex st])"

text \<open>The text events of the stream.\<close>

fun isTextEvent :: "event \<Rightarrow> bool" where
  "isTextEvent (TextEvent txt) = True"
| "isTextEvent (ReasoningStepEvent s) = False"

text \<open>
  Two more invariants of the loop. The first: the score history is the projection of the
  recorded steps, the recorded steps are numbered from 1, and the feedback call of each
  step received the scores of that step and the entries of the steps before it. The
  second: every step request was built from the feedback recorded with the step before it,
  and \<open>previousFeedback\<close> is the feedback of the last recorded step.
\<close>

definition historyKept :: "env \<Rightarrow> session \<Rightarrow> bool" where
  "historyKept env st \<longleftrightarrow>
     scoreHistory st = map entryOf (allSteps st)
     \<and> map enrichedStep.stepIndex (allSteps st) = [1..<Suc (length (allSteps st))]
     \<and> feedbackCalls st =
         map (\<lambda>n. (dharma (allSteps st ! n), map entryOf (take n (allSteps st)), DHARMA_TARGET env))
           [0..<length (allSteps st)]
     \<and> (shouldContinue st \<longrightarrow> session.stepIndex st = length (allSteps st))"

definition contextsKept :: "env \<Rightarrow> message list \<Rightarrow> session \<Rightarrow> bool" where
  "contextsKept env msgs st \<longleftrightarrow>
     stepContexts st =
       map (\<lambda>n. contextMessages (DHARMA_MAX_STEPS env) msgs (Suc n)
                  (if n = 0 then [] else serverFeedback (allSteps st ! (n - 1))))
         [0..<session.stepIndex st]
     \<and> previousFeedback st =
         (if allSteps st = [] then [] else serverFeedback (last (allSteps st)))
     \<and> (shouldContinue st \<longrightarrow> session.stepIndex st = length (allSteps st))"

subsection \<open>Example environments\<close>

text \<open>
  Stand-ins for two built-ins in the examples. \<open>toFixedDigits\<close> is
  \<open>Number.prototype.toFixed\<close> for a number that is not negative and below \<open>10 ^ 21\<close>: the
  integer nearest to the number times \<open>10 ^ f\<close>, the larger one on a tie, with the point
  before its last \<open>f\<close> digits. \<open>trimASCII\<close> strips the white space and the line terminators
  below 128 from both ends; the strings of the examples hold no other white space.
\<close>

definition toFixedDigits :: "real \<Rightarrow> nat \<Rightarrow> string" where
  "toFixedDigits x f =
     (let n = nat \<lfloor>x * 10 ^ f + 1 / 2\<rfloor>;
          m = show_nat n;
          m = replicate (Suc f - length m) (CHR ''0'') @ m
      in if f = 0 then m else take (length m - f) m @ ''.'' @ drop (length m - f) m)"

definition isWhiteSpace :: "char \<Rightarrow> bool" where
  "isWhiteSpace c \<longleftrightarrow> c \<in> set [CHR 0x09, CHR 0x0A, CHR 0x0B, CHR 0x0C, CHR 0x0D, CHR 0x20]"

definition trimASCII :: "string \<Rightarrow> string" where
  "trimASCII s = rev (dropWhile isWhiteSpace (rev (dropWhile isWhiteSpace s)))"

text \<open>
  An inbound conversation and four environments for running the handler on concrete
  input. In the first two the model answers every step request in plain text, so that no
  JSON is found; the first has a ceiling of 3, below the minimum, and distinct feedback
  for steps 1 and 2; the second has a target of 0.5. In the third the feedback for step 1
  is blank, the answer to the second step request is a JSON text that parses to an object
  with a score of 1.5, and the synthesis call fails. In the fourth every step answer is a
  JSON text with the scores 0.6, 0.7, 0.8 and 0.9, which \<open>JSON.parse\<close> reads as the doubles
  nearest to them; the ceiling is 6.
\<close>

definition question :: "message list" where
  "question = [\<lparr>role = ''user'', content = Text ''How should a small team plan a release?''\<rparr>]"

definition plainEnv :: env where
  "plainEnv =
     \<lparr>DHARMA_TARGET = 0.75, DHARMA_MAX_STEPS = 3,
      generateText = (\<lambda>n req. if n = 1 then Inr ''first advice''
                               else if n = 3 then Inr ''  second advice ''
                               else Inr ''plain answer''),
      JSON_parse = (\<lambda>s. None),
      toFixed = toFixedDigits,
      trim = trimASCII\<rparr>"

definition lenientEnv :: env where
  "lenientEnv =
     \<lparr>DHARMA_TARGET = 0.5, DHARMA_MAX_STEPS = 10,
      generateText = (\<lambda>n req. Inr ''plain answer''),
      JSON_parse = (\<lambda>s. None),
      toFixed = toFixedDigits,
      trim = trimASCII\<rparr>"

definition outOfRangeText :: string where
  \<open>outOfRangeText = ''{"title": "Plan", "content": "Think", "dharma": {"mindfulness": 1.5, "emptiness": 0.5, "nonDuality": 0.5, "boundlessCare": 0.5, "rationale": "sure"}}''\<close>

definition outOfRangeJSON :: json where
  "outOfRangeJSON =
     JObject [(''title'', JString ''Plan''), (''content'', JString ''Think''),
              (''dharma'', JObject [(''mindfulness'', JNumber 1.5), (''emptiness'', JNumber 0.5),
                                    (''nonDuality'', JNumber 0.5), (''boundlessCare'', JNumber 0.5),
                                    (''rationale'', JString ''sure'')])]"

definition outOfRangeEnv :: env where
  "outOfRangeEnv =
     \<lparr>DHARMA_TARGET = 0.75, DHARMA_MAX_STEPS = 10,
      generateText = (\<lambda>n req. if n = 1 then Inr ''  ''
                               else if n = 2 then Inr outOfRangeText
                               else if n = 3 then Inl (ServiceError ''unavailable'')
                               else Inr ''plain answer''),
      JSON_parse = (\<lambda>s. if s = outOfRangeText then Some outOfRangeJSON else None),
      toFixed = toFixedDigits,
      trim = trimASCII\<rparr>"

definition borderlineText :: string where
  \<open>borderlineText = ''{"title": "Plan", "content": "Think", "dharma": {"mindfulness": 0.6, "emptiness": 0.7, "nonDuality": 0.8, "boundlessCare": 0.9, "rationale": "sure"}}''\<close>

definition borderlineScores :: DharmaEvaluation where
  "borderlineScores =
     \<lparr>mindfulness = round64 0.6, emptiness = round64 0.7, nonDuality = round64 0.8,
      boundlessCare = round64 0.9, rationale = ''sure''\<rparr>"

definition borderlineJSON :: json where
  "borderlineJSON =
     JObject [(''title'', JString ''Plan''), (''content'', JString ''Think''),
              (''dharma'', JObject [(''mindfulness'', JNumber (mindfulness borderlineScores)),
                                    (''emptiness'', JNumber (emptiness borderlineScores)),
                                    (''nonDuality'', JNumber (nonDuality borderlineScores)),
                                    (''boundlessCare'', JNumber (boundlessCare borderlineScores)),
                                    (''rationale'', JString (rationale borderlineScores))])]"

definition borderlineStep :: reasoningStep where
  "borderlineStep =
     \<lparr>reasoningStep.title = ''Plan'', content = ''Think'', dharma = borderlineScores\<rparr>"

definition borderlineEnv :: env where
  "borderlineEnv =
     \<lparr>DHARMA_TARGET = 0.75, DHARMA_MAX_STEPS = 6,
      generateText = (\<lambda>n req. if n < 12 \<and> even n then Inr borderlineText
                               else Inr ''keep going''),
      JSON_parse = (\<lambda>s. if s = borderlineText then Some borderlineJSON else None),
      toFixed = toFixedDigits,
      trim = trimASCII\<rparr>"

text \<open>
  The states of the second and of the fourth environment after three iterations, and the
  state of the third after one.
\<close>

definition afterThree :: session where
  "afterThree = iteration lenientEnv question (iteration lenientEnv question (iteration lenientEnv question initialSession))"

definition afterOne :: session where
  "afterOne = iteration outOfRangeEnv question initialSession"

definition borderlineThree :: session where
  "borderlineThree =
     iteration borderlineEnv question
       (iteration borderlineEnv question (iteration borderlineEnv question initialSession))"

section \<open>Properties\<close>

subsection \<open>Rounding to a double\<close>

lemmas number_simps = number_add_def number_div_def round64_def ulp_def binade_def
  binade_up.simps binade_down.simps roundTiesToEven_def Let_def

lemma roundTiesToEven_error: "\<bar>of_int (roundTiesToEven q) - q\<bar> \<le> 1 / 2"
  by (auto simp: roundTiesToEven_def Let_def)

lemma roundTiesToEven_le: "q \<le> of_int z \<Longrightarrow> roundTiesToEven q \<le> z"
proof -
  assume a: "q \<le> of_int z"
  have f: "\<lfloor>q\<rfloor> \<le> z" using a by (simp add: floor_le_iff) 
  show ?thesis
  proof (cases "\<lfloor>q\<rfloor> = z")
    case True
    then have "q - of_int \<lfloor>q\<rfloor> \<le> 0" using a by simp
    then show ?thesis using True by (simp add: roundTiesToEven_def Let_def)
  next
    case False
    then have "\<lfloor>q\<rfloor> + 1 \<le> z" using f by simp
    then show ?thesis using f by (simp add: roundTiesToEven_def Let_def)
  qed
qed

lemma roundTiesToEven_ge: "of_int z \<le> q \<Longrightarrow> z \<le> roundTiesToEven q"
proof -
  assume "of_int z \<le> q"
  then have "z \<le> \<lfloor>q\<rfloor>" by (simp add: le_floor_iff)
  then show ?thesis by (simp add: roundTiesToEven_def Let_def)
qed

lemma binade_down_le: "binade_down x j \<le> j"
  by (induction x j rule: binade_down.induct) (subst binade_down.simps, auto)

lemma binade_up_bound:
  "j \<le> k \<Longrightarrow> x < 2 powi (k + 1) \<Longrightarrow> binade_up x j \<le> k"
proof (induction x j rule: binade_up.induct)
  case (1 x j)
  show ?case
  proof (cases "j < 1023 \<and> 2 powi (j + 1) \<le> x")
    case True
    then have "(2::real) powi (j + 1) < 2 powi (k + 1)" using "1.prems"(2) by simp
    then have "j + 1 < k + 1"
      by (smt (verit) power_int_increasing)
    then have "binade_up x (j + 1) \<le> k" using "1.IH" True "1.prems"(2) by simp
    then show ?thesis using True by (subst binade_up.simps) simp
  next
    case False
    then show ?thesis using "1.prems"(1) by (subst binade_up.simps) auto
  qed
qed

lemma binade_down_bound:
  "- 1022 \<le> k \<Longrightarrow> x < 2 powi (k + 1) \<Longrightarrow> binade_down x j \<le> k"
proof (induction x j rule: binade_down.induct)
  case (1 x j)
  show ?case
  proof (cases "j \<le> k")
    case True
    then show ?thesis using binade_down_le[of x j] by simp
  next
    case False
    then have "(2::real) powi (k + 1) \<le> 2 powi j"
      by (intro power_int_increasing) auto
    then have "- 1022 < j \<and> x < 2 powi j" using False "1.prems" by simp
    then show ?thesis using "1.IH" "1.prems" by (subst binade_down.simps) simp
  qed
qed

lemma binade_bound:
  assumes "\<bar>x\<bar> < 2 powi (k + 1)" and "- 1022 \<le> k"
  shows "binade x \<le> k"
proof (cases "1 \<le> \<bar>x\<bar>")
  case True
  then have "(2::real) powi 0 < 2 powi (k + 1)" using assms(1) by simp
  then have "0 < k + 1" by (smt (verit) power_int_increasing)
  then show ?thesis using True assms binade_up_bound[of 0 k "\<bar>x\<bar>"] by (simp add: binade_def)
next
  case False
  then show ?thesis using assms binade_down_bound[of k "\<bar>x\<bar>" "- 1"] by (simp add: binade_def)
qed

lemma ulp_pos: "0 < ulp x"
  by (simp add: ulp_def)

lemma round64_error:
  assumes "\<bar>x\<bar> < 2 powi (k + 1)" and "- 1022 \<le> k"
  shows "\<bar>round64 x - x\<bar> \<le> 2 powi (k - 53)"
proof -
  have "round64 x - x = (of_int (roundTiesToEven (x / ulp x)) - x / ulp x) * ulp x"
    using ulp_pos[of x] by (simp add: round64_def left_diff_distrib)
  then have "\<bar>round64 x - x\<bar> = \<bar>of_int (roundTiesToEven (x / ulp x)) - x / ulp x\<bar> * ulp x"
    using ulp_pos[of x] by (simp add: abs_mult)
  also have "\<dots> \<le> 1 / 2 * ulp x"
    using roundTiesToEven_error[of "x / ulp x"] ulp_pos[of x] by (intro mult_right_mono) auto
  also have "\<dots> = 2 powi (binade x - 53)"
    by (simp add: ulp_def power_int_diff)
  also have "\<dots> \<le> 2 powi (k - 53)"
    using binade_bound[OF assms] by (intro power_int_increasing) auto
  finally show ?thesis .
qed

lemma round64_le_int:
  assumes "x \<le> of_int z" and "\<bar>x\<bar> < 2 powi 53"
  shows "round64 x \<le> of_int z"
proof -
  have b: "binade x \<le> 52" using binade_bound[of x 52] assms(2) by simp
  define n where "n = nat (52 - binade x)"
  have u: "ulp x = 1 / 2 ^ n"
    using b by (simp add: ulp_def n_def power_int_def field_simps)
  have "x / ulp x \<le> of_int (z * 2 ^ n)"
    using assms(1) by (simp add: u mult_right_mono)
  then have "roundTiesToEven (x / ulp x) \<le> z * 2 ^ n" by (rule roundTiesToEven_le)
  then have "(of_int (roundTiesToEven (x / ulp x)) :: real) \<le> of_int (z * 2 ^ n)"
    by (simp only: of_int_le_iff)
  then show ?thesis by (simp add: round64_def u field_simps)
qed

lemma round64_ge_int:
  assumes "of_int z \<le> x" and "\<bar>x\<bar> < 2 powi 53"
  shows "of_int z \<le> round64 x"
proof -
  have b: "binade x \<le> 52" using binade_bound[of x 52] assms(2) by simp
  define n where "n = nat (52 - binade x)"
  have u: "ulp x = 1 / 2 ^ n"
    using b by (simp add: ulp_def n_def power_int_def field_simps)
  have "of_int (z * 2 ^ n) \<le> x / ulp x"
    using assms(1) by (simp add: u mult_right_mono)
  then have "z * 2 ^ n \<le> roundTiesToEven (x / ulp x)" by (rule roundTiesToEven_ge)
  then have "(of_int (z * 2 ^ n) :: real) \<le> of_int (roundTiesToEven (x / ulp x))"
    by (simp only: of_int_le_iff)
  then show ?thesis by (simp add: round64_def u field_simps)
qed

lemma abs_sum_quarter:
  fixes a b c d :: real
  shows "\<bar>a + (b + c + d) / 4\<bar> \<le> \<bar>a\<bar> + (\<bar>b\<bar> + \<bar>c\<bar> + \<bar>d\<bar>) / 4"
proof -
  have "\<bar>a + (b + c + d) / 4\<bar> \<le> \<bar>a\<bar> + \<bar>(b + c + d) / 4\<bar>"
    by (rule abs_triangle_ineq)
  also have "\<bar>(b + c + d) / 4\<bar> = \<bar>b + c + d\<bar> / 4"
    by simp
  also have "\<bar>b + c + d\<bar> \<le> \<bar>b\<bar> + \<bar>c\<bar> + \<bar>d\<bar>"
    by linarith
  finally show ?thesis by simp
qed

subsection \<open>The scoring utility\<close>

lemma borderline_doubles:
  "mindfulness borderlineScores = 5404319552844595 / 2 ^ 53"
  "emptiness borderlineScores = 6305039478318694 / 2 ^ 53"
  "nonDuality borderlineScores = 7205759403792794 / 2 ^ 53"
  "boundlessCare borderlineScores = 8106479329266893 / 2 ^ 53"
  by (simp_all add: borderlineScores_def number_simps)

lemma mean_borderline: "mean borderlineScores = 6755399441055743 / 2 ^ 53"
  by (simp add: mean_def borderline_doubles) (simp add: number_simps)

lemma mean_half:
  fixes sc :: "(real, 'b) DharmaScores_scheme"
  assumes "mindfulness sc = 1 / 2" and "emptiness sc = 1 / 2"
      and "nonDuality sc = 1 / 2" and "boundlessCare sc = 1 / 2"
  shows "mean sc = 1 / 2"
  by (simp add: mean_def assms) (simp add: number_simps)

text \<open>
  Claim C8, as stated, fails: for the doubles nearest to 0.6, 0.7, 0.8 and 0.9, which lie
  between 0 and 1 and whose sum is exactly 3, \<open>mean\<close> returns the double below 0.75 and not
  their mean 0.75: two of the three additions round down.
\<close>

theorem mean_below_exact_mean:
  "0 \<le> mindfulness borderlineScores \<and> mindfulness borderlineScores \<le> 1
   \<and> 0 \<le> emptiness borderlineScores \<and> emptiness borderlineScores \<le> 1
   \<and> 0 \<le> nonDuality borderlineScores \<and> nonDuality borderlineScores \<le> 1
   \<and> 0 \<le> boundlessCare borderlineScores \<and> boundlessCare borderlineScores \<le> 1
   \<and> (mindfulness borderlineScores + emptiness borderlineScores + nonDuality borderlineScores
        + boundlessCare borderlineScores) / 4 = 3 / 4
   \<and> mean borderlineScores = 3 / 4 - 1 / 2 ^ 53
   \<and> mean borderlineScores \<noteq>
       (mindfulness borderlineScores + emptiness borderlineScores + nonDuality borderlineScores
        + boundlessCare borderlineScores) / 4"
  by (simp add: mean_borderline borderline_doubles)

text \<open>
  Claim C8, amended. For scores whose four sub-scores lie between 0 and 1, \<open>mean\<close> returns
  the sum of the four sub-scores, added from left to right with each sum rounded to the
  nearest double, divided by 4 and rounded. The result lies between 0 and 1 and differs
  from the arithmetic mean of the four sub-scores by at most \<open>3 / 2 ^ 53\<close>.
\<close>

theorem mean_rounded_mean_bounded:
  fixes sc :: "(real, 'b) DharmaScores_scheme"
  assumes "0 \<le> mindfulness sc \<and> mindfulness sc \<le> 1"
      and "0 \<le> emptiness sc \<and> emptiness sc \<le> 1"
      and "0 \<le> nonDuality sc \<and> nonDuality sc \<le> 1"
      and "0 \<le> boundlessCare sc \<and> boundlessCare sc \<le> 1"
  shows "mean sc =
           round64 (round64 (round64 (round64 (mindfulness sc + emptiness sc) + nonDuality sc)
                               + boundlessCare sc) / 4)
         \<and> 0 \<le> mean sc \<and> mean sc \<le> 1
         \<and> \<bar>mean sc - (mindfulness sc + emptiness sc + nonDuality sc + boundlessCare sc) / 4\<bar>
             \<le> 3 / 2 ^ 53"
proof -
  define s1 where "s1 = round64 (mindfulness sc + emptiness sc)"
  define s2 where "s2 = round64 (s1 + nonDuality sc)"
  define s3 where "s3 = round64 (s2 + boundlessCare sc)"
  have m: "mean sc = round64 (s3 / 4)"
    by (simp add: mean_def number_add_def number_div_def s1_def s2_def s3_def)
  have b1: "0 \<le> s1 \<and> s1 \<le> 2"
    using assms(1,2) round64_ge_int[of 0 "mindfulness sc + emptiness sc"]
      round64_le_int[of "mindfulness sc + emptiness sc" 2]
    by (simp add: s1_def)
  have e1: "\<bar>s1 - (mindfulness sc + emptiness sc)\<bar> \<le> 1 / 2 ^ 52"
    using assms(1,2) round64_error[of "mindfulness sc + emptiness sc" 1]
    by (simp add: s1_def)
  have b2: "0 \<le> s2 \<and> s2 \<le> 3"
    using assms(3) b1 round64_ge_int[of 0 "s1 + nonDuality sc"]
      round64_le_int[of "s1 + nonDuality sc" 3]
    by (simp add: s2_def)
  have e2: "\<bar>s2 - (s1 + nonDuality sc)\<bar> \<le> 1 / 2 ^ 52"
    using assms(3) b1 round64_error[of "s1 + nonDuality sc" 1]
    by (simp add: s2_def)
  have b3: "0 \<le> s3 \<and> s3 \<le> 4"
    using assms(4) b2 round64_ge_int[of 0 "s2 + boundlessCare sc"]
      round64_le_int[of "s2 + boundlessCare sc" 4]
    by (simp add: s3_def)
  have e3: "\<bar>s3 - (s2 + boundlessCare sc)\<bar> \<le> 1 / 2 ^ 51"
    using assms(4) b2 round64_error[of "s2 + boundlessCare sc" 2]
    by (simp add: s3_def)
  have b4: "0 \<le> round64 (s3 / 4) \<and> round64 (s3 / 4) \<le> 1"
    using b3 round64_ge_int[of 0 "s3 / 4"] round64_le_int[of "s3 / 4" 1]
    by simp
  have e4: "\<bar>round64 (s3 / 4) - s3 / 4\<bar> \<le> 1 / 2 ^ 53"
    using b3 round64_error[of "s3 / 4" 0]
    by simp
  define r where "r = round64 (s3 / 4)"
  define total where
    "total = mindfulness sc + emptiness sc + nonDuality sc + boundlessCare sc"
  have "r - total / 4 =
          (r - s3 / 4) + ((s3 - (s2 + boundlessCare sc)) + (s2 - (s1 + nonDuality sc))
            + (s1 - (mindfulness sc + emptiness sc))) / 4"
    by (simp add: total_def field_simps)
  then have "\<bar>r - total / 4\<bar> \<le>
          \<bar>r - s3 / 4\<bar> + (\<bar>s3 - (s2 + boundlessCare sc)\<bar> + \<bar>s2 - (s1 + nonDuality sc)\<bar>
            + \<bar>s1 - (mindfulness sc + emptiness sc)\<bar>) / 4"
    by (simp only: abs_sum_quarter)
  also have "\<dots> \<le> 1 / 2 ^ 53 + (1 / 2 ^ 51 + 1 / 2 ^ 52 + 1 / 2 ^ 52) / 4"
    using e1 e2 e3 e4 unfolding r_def
    by (intro add_mono divide_right_mono) simp_all
  also have "\<dots> = 3 / 2 ^ 53"
    by simp
  finally have "\<bar>round64 (s3 / 4) -
          (mindfulness sc + emptiness sc + nonDuality sc + boundlessCare sc) / 4\<bar> \<le> 3 / 2 ^ 53"
    by (simp only: r_def total_def)
  then show ?thesis
    using m b4 by (simp add: s1_def s2_def s3_def)
qed

theorem mean_rounded_mean_bounded_witness:
  "0 \<le> mindfulness borderlineScores \<and> mindfulness borderlineScores \<le> 1
   \<and> 0 \<le> emptiness borderlineScores \<and> emptiness borderlineScores \<le> 1
   \<and> 0 \<le> nonDuality borderlineScores \<and> nonDuality borderlineScores \<le> 1
   \<and> 0 \<le> boundlessCare borderlineScores \<and> boundlessCare borderlineScores \<le> 1
   \<and> mean borderlineScores = 6755399441055743 / 2 ^ 53
   \<and> 0 \<le> mean borderlineScores \<and> mean borderlineScores \<le> 1
   \<and> \<bar>mean borderlineScores - 3 / 4\<bar> \<le> 3 / 2 ^ 53"
  using mean_rounded_mean_bounded [of borderlineScores]
  by (simp add: mean_borderline borderline_doubles)

subsection \<open>The feedback generator\<close>

lemma snd_generateDharmaFeedback:
  "snd (generateDharmaFeedback g tr c h t w) =
     w\<lparr>calls := calls w @ [feedbackRequest c h t],
       console := console w @
         (case g (length (calls w)) (feedbackRequest c h t) of
            Inr txt \<Rightarrow> [] | Inl e \<Rightarrow> [FeedbackError e])\<rparr>"
  by (simp add: generateDharmaFeedback_def Let_def split: sum.split)

lemma fst_generateDharmaFeedback:
  "fst (generateDharmaFeedback g tr c h t w) =
     (case g (length (calls w)) (feedbackRequest c h t) of
        Inr txt \<Rightarrow> tr txt | Inl e \<Rightarrow> generateSimpleFeedback c t)"
  by (simp add: generateDharmaFeedback_def Let_def split: sum.split)

lemma generateSimpleFeedback_nonempty: "generateSimpleFeedback sc t \<noteq> []"
  by (simp add: generateSimpleFeedback_def Let_def)

lemma generateSimpleFeedback_scores_only:
  fixes c1 :: "(real, 'a) DharmaScores_scheme" and c2 :: "(real, 'b) DharmaScores_scheme"
  assumes "mindfulness c1 = mindfulness c2" and "emptiness c1 = emptiness c2"
      and "nonDuality c1 = nonDuality c2" and "boundlessCare c1 = boundlessCare c2"
  shows "generateSimpleFeedback c1 t = generateSimpleFeedback c2 t"
  using assms by (simp add: generateSimpleFeedback_def)

text \<open>
  Claim C9. When the call to the model fails inside \<open>generateDharmaFeedback\<close>, the function
  still returns a string: the text of \<open>generateSimpleFeedback\<close> for the current scores and the
  target, which is not empty. A second invocation whose call fails too, with the same four
  sub-scores and the same target, returns the same text, whatever the model, the history,
  the rationale and the earlier calls are.
\<close>

theorem generateDharmaFeedback_fallback_deterministic:
  assumes "g1 (length (calls w1)) (feedbackRequest c1 h1 t) = Inl e1"
      and "g2 (length (calls w2)) (feedbackRequest c2 h2 t) = Inl e2"
      and "mindfulness c1 = mindfulness c2" and "emptiness c1 = emptiness c2"
      and "nonDuality c1 = nonDuality c2" and "boundlessCare c1 = boundlessCare c2"
  shows "fst (generateDharmaFeedback g1 tr1 c1 h1 t w1) = generateSimpleFeedback c1 t
         \<and> fst (generateDharmaFeedback g1 tr1 c1 h1 t w1) \<noteq> []
         \<and> fst (generateDharmaFeedback g2 tr2 c2 h2 t w2) = fst (generateDharmaFeedback g1 tr1 c1 h1 t w1)"
proof -
  have one: "fst (generateDharmaFeedback g1 tr1 c1 h1 t w1) = generateSimpleFeedback c1 t"
    using assms(1) by (simp add: fst_generateDharmaFeedback)
  have two: "fst (generateDharmaFeedback g2 tr2 c2 h2 t w2) = generateSimpleFeedback c2 t"
    using assms(2) by (simp add: fst_generateDharmaFeedback)
  have same: "generateSimpleFeedback c1 t = generateSimpleFeedback c2 t"
    using assms(3-6) by (rule generateSimpleFeedback_scores_only)
  show ?thesis
    using one two same generateSimpleFeedback_nonempty [of c1 t] by simp
qed

theorem generateDharmaFeedback_fallback_deterministic_witness:
  "fst (generateDharmaFeedback (\<lambda>n r. Inl (ServiceError ''timeout'')) trimASCII
          \<lparr>mindfulness = 0.875, emptiness = 0.5, nonDuality = 0.75, boundlessCare = 1,
           rationale = ''first''\<rparr> [] 0.75 \<lparr>calls = [], console = []\<rparr>)
     = ''Strengthen emptiness: hold conclusions more lightly, acknowledge uncertainty.''
   \<and> fst (generateDharmaFeedback (\<lambda>n r. Inl (ServiceError ''refused'')) trimASCII
          \<lparr>mindfulness = 0.875, emptiness = 0.5, nonDuality = 0.75, boundlessCare = 1,
           rationale = ''second''\<rparr> [] 0.75 \<lparr>calls = [], console = []\<rparr>)
     = ''Strengthen emptiness: hold conclusions more lightly, acknowledge uncertainty.''"
  using generateDharmaFeedback_fallback_deterministic
          [of "\<lambda>n r. Inl (ServiceError ''timeout'')" "\<lparr>calls = [], console = []\<rparr>"
              "\<lparr>mindfulness = 0.875, emptiness = 0.5, nonDuality = 0.75, boundlessCare = 1,
                rationale = ''first''\<rparr>" "[]" "0.75" "ServiceError ''timeout''"
              "\<lambda>n r. Inl (ServiceError ''refused'')" "\<lparr>calls = [], console = []\<rparr>"
              "\<lparr>mindfulness = 0.875, emptiness = 0.5, nonDuality = 0.75, boundlessCare = 1,
                rationale = ''second''\<rparr>" "[]" "ServiceError ''refused''" trimASCII trimASCII]
  by (simp add: generateSimpleFeedback_def)

subsection \<open>The loop body and the loop\<close>

lemma stepFeedback_cong:
  "calls st' = calls st \<Longrightarrow> scoreHistory st' = scoreHistory st \<Longrightarrow>
   stepFeedback env v st' = stepFeedback env v st"
  by (simp add: stepFeedback_def fst_generateDharmaFeedback)

lemma completeStep_fields:
  "session.stepIndex (completeStep env v st) = session.stepIndex st"
  "allSteps (completeStep env v st) =
     allSteps st @ [enrich env v (session.stepIndex st) (stepFeedback env v st)]"
  "dataStream (completeStep env v st) =
     dataStream st @ [ReasoningStepEvent (enrich env v (session.stepIndex st) (stepFeedback env v st))]"
  "scoreHistory (completeStep env v st) =
     scoreHistory st @ [entryOf (enrich env v (session.stepIndex st) (stepFeedback env v st))]"
  "calls (completeStep env v st) =
     calls st @ [feedbackRequest (dharma v) (scoreHistory st) (DHARMA_TARGET env)]"
  "previousFeedback (completeStep env v st) = stepFeedback env v st"
  "shouldContinue (completeStep env v st) =
     fst (terminationLogic (DHARMA_MAX_STEPS env) (DHARMA_TARGET env) (session.stepIndex st)
            (mean (dharma v)))"
  "reasons (completeStep env v st) =
     reasons st @ [snd (terminationLogic (DHARMA_MAX_STEPS env) (DHARMA_TARGET env)
                          (session.stepIndex st) (mean (dharma v)))]"
  "stepErrors (completeStep env v st) = stepErrors st"
  by (auto simp add: completeStep_def Let_def split_beta snd_generateDharmaFeedback
        fst_generateDharmaFeedback stepFeedback_def enrich_def entryOf_def reasons_def
        stepErrors_def split: sum.split)

lemma iteration_success:
  "attempt env msgs st = Inr v \<Longrightarrow> iteration env msgs st = completeStep env v (enter env msgs st)"
  by (simp add: iteration_def attempt_def enter_def Let_def)

lemma iteration_failure:
  "attempt env msgs st = Inl e \<Longrightarrow>
   iteration env msgs st =
     (enter env msgs st)\<lparr>console := console st @ [StepError (Suc (session.stepIndex st)) e],
                          shouldContinue := False\<rparr>"
  by (simp add: iteration_def attempt_def enter_def Let_def)

lemma enter_fields:
  "session.stepIndex (enter env msgs st) = Suc (session.stepIndex st)"
  "allSteps (enter env msgs st) = allSteps st"
  "dataStream (enter env msgs st) = dataStream st"
  "scoreHistory (enter env msgs st) = scoreHistory st"
  "previousFeedback (enter env msgs st) = previousFeedback st"
  "shouldContinue (enter env msgs st) = shouldContinue st"
  "console (enter env msgs st) = console st"
  "reasons (enter env msgs st) = reasons st"
  "stepErrors (enter env msgs st) = stepErrors st"
  "calls (enter env msgs st) = calls st @
          [stepRequest (contextMessages (DHARMA_MAX_STEPS env) msgs (Suc (session.stepIndex st))
             (previousFeedback st))]"
  by (simp_all add: enter_def reasons_def stepErrors_def)

lemma stepIndex_iteration:
  "session.stepIndex (iteration env msgs st) = Suc (session.stepIndex st)"
  by (cases "attempt env msgs st")
     (simp_all add: iteration_success iteration_failure completeStep_fields enter_fields)

lemma loop_invariant:
  assumes "I st"
      and "\<And>s. I s \<Longrightarrow> shouldContinue s \<Longrightarrow> session.stepIndex s < DHARMA_MAX_STEPS env \<Longrightarrow>
             I (iteration env msgs s)"
  shows "I (loop env msgs st)"
  using assms(1)
proof (induction n \<equiv> "DHARMA_MAX_STEPS env - session.stepIndex st" arbitrary: st)
  case 0
  then show ?case by (simp add: loop.simps[of env msgs st])
next
  case (Suc n)
  show ?case
  proof (cases "shouldContinue st \<and> session.stepIndex st < DHARMA_MAX_STEPS env")
    case True
    have "n = DHARMA_MAX_STEPS env - session.stepIndex (iteration env msgs st)"
      using Suc.hyps(2) by (simp add: stepIndex_iteration)
    moreover have "I (iteration env msgs st)"
      using assms(2) Suc.prems True by simp
    ultimately have "I (loop env msgs (iteration env msgs st))"
      by (rule Suc.hyps(1))
    then show ?thesis using True by (simp add: loop.simps[of env msgs st])
  next
    case False
    then show ?thesis using Suc.prems by (auto simp add: loop.simps[of env msgs st])
  qed
qed

lemma loop_exit:
  "\<not> (shouldContinue (loop env msgs st) \<and>
      session.stepIndex (loop env msgs st) < DHARMA_MAX_STEPS env)"
proof (induction n \<equiv> "DHARMA_MAX_STEPS env - session.stepIndex st" arbitrary: st)
  case 0
  then show ?case by (simp add: loop.simps[of env msgs st])
next
  case (Suc n)
  show ?case
  proof (cases "shouldContinue st \<and> session.stepIndex st < DHARMA_MAX_STEPS env")
    case True
    have "n = DHARMA_MAX_STEPS env - session.stepIndex (iteration env msgs st)"
      using Suc.hyps(2) by (simp add: stepIndex_iteration)
    then have "\<not> (shouldContinue (loop env msgs (iteration env msgs st)) \<and>
      session.stepIndex (loop env msgs (iteration env msgs st)) < DHARMA_MAX_STEPS env)"
      by (rule Suc.hyps(1))
    then show ?thesis using True by (simp add: loop.simps[of env msgs st])
  next
    case False
    then show ?thesis by (auto simp add: loop.simps[of env msgs st])
  qed
qed


lemma iteration_cases:
  obtains (ok) v where "attempt env msgs st = Inr v"
                  "iteration env msgs st = completeStep env v (enter env msgs st)"
        | (err) e where "attempt env msgs st = Inl e"
                  "iteration env msgs st =
                     (enter env msgs st)\<lparr>console := console st @ [StepError (Suc (session.stepIndex st)) e],
                          shouldContinue := False\<rparr>"
  by (cases "attempt env msgs st") (auto simp: iteration_success iteration_failure)

lemma terminationLogic_stop:
  "\<not> fst (terminationLogic limit target idx score) \<Longrightarrow> limit \<le> idx \<or> MINIMUM_STEPS \<le> idx"
  by (auto simp: terminationLogic_def split: if_splits)

lemma counted_initial: "counted env initialSession"
  by (simp add: counted_def initialSession_def stepErrors_def)

lemma counted_iteration:
  assumes "counted env st" and "shouldContinue st"
  shows "counted env (iteration env msgs st)"
proof -
  from assms have noerr: "stepErrors st = []" and len: "length (allSteps st) = session.stepIndex st"
    by (auto simp: counted_def split: if_splits)
  show ?thesis
  proof (cases rule: iteration_cases[of env msgs st])
    case (ok v)
    then show ?thesis
      using noerr len terminationLogic_stop
      by (auto simp: counted_def completeStep_fields enter_fields)
  next
    case (err e)
    then show ?thesis
      using noerr len
      by (simp add: counted_def enter_fields stepErrors_def enter_def)
  qed
qed

lemma counted_loop: "counted env (loop env msgs initialSession)"
  by (rule loop_invariant) (simp_all add: counted_initial counted_iteration)

lemma stepIndex_loop_le:
  "session.stepIndex st \<le> DHARMA_MAX_STEPS env \<Longrightarrow>
   session.stepIndex (loop env msgs st) \<le> DHARMA_MAX_STEPS env"
  by (rule loop_invariant) (simp_all add: stepIndex_iteration)

lemma loop_funpow:
  "\<exists>k. k \<le> DHARMA_MAX_STEPS env - session.stepIndex st \<and>
       loop env msgs st = (iteration env msgs ^^ k) st"
proof (induction n \<equiv> "DHARMA_MAX_STEPS env - session.stepIndex st" arbitrary: st)
  case 0
  then have "loop env msgs st = (iteration env msgs ^^ 0) st"
    by (simp add: loop.simps[of env msgs st])
  then show ?case by blast
next
  case (Suc n)
  show ?case
  proof (cases "shouldContinue st \<and> session.stepIndex st < DHARMA_MAX_STEPS env")
    case True
    have "n = DHARMA_MAX_STEPS env - session.stepIndex (iteration env msgs st)"
      using Suc.hyps(2) by (simp add: stepIndex_iteration)
    from Suc.hyps(1)[OF this] obtain k where
      k: "k \<le> DHARMA_MAX_STEPS env - session.stepIndex (iteration env msgs st)"
         "loop env msgs (iteration env msgs st) = (iteration env msgs ^^ k) (iteration env msgs st)"
      by blast
    have "loop env msgs st = (iteration env msgs ^^ Suc k) st"
      using True k(2) by (simp add: loop.simps[of env msgs st] funpow_swap1)
    moreover have "Suc k \<le> DHARMA_MAX_STEPS env - session.stepIndex st"
      using k(1) True unfolding stepIndex_iteration by arith
    ultimately show ?thesis by blast
  next
    case False
    then have "loop env msgs st = (iteration env msgs ^^ 0) st"
      by (auto simp add: loop.simps[of env msgs st])
    then show ?thesis by blast
  qed
qed

lemma allSteps_loop_bounds:
  "length (allSteps (loop env msgs initialSession)) \<le> DHARMA_MAX_STEPS env"
  "stepErrors (loop env msgs initialSession) = [] \<Longrightarrow>
     min MINIMUM_STEPS (DHARMA_MAX_STEPS env) \<le> length (allSteps (loop env msgs initialSession))"
proof -
  let ?S = "loop env msgs initialSession"
  have c: "counted env ?S" by (rule counted_loop)
  have b: "session.stepIndex ?S \<le> DHARMA_MAX_STEPS env"
    by (rule stepIndex_loop_le) (simp add: initialSession_def)
  have x: "\<not> (shouldContinue ?S \<and> session.stepIndex ?S < DHARMA_MAX_STEPS env)"
    by (rule loop_exit)
  show "length (allSteps ?S) \<le> DHARMA_MAX_STEPS env"
    using c b by (auto simp: counted_def split: if_splits)
  show "min MINIMUM_STEPS (DHARMA_MAX_STEPS env) \<le> length (allSteps ?S)" if "stepErrors ?S = []"
    using c x that by (auto simp: counted_def split: if_splits)
qed

lemma dataStream_loop:
  "dataStream (loop env msgs initialSession) =
     map ReasoningStepEvent (allSteps (loop env msgs initialSession))"
proof (rule loop_invariant)
  show "dataStream initialSession = map ReasoningStepEvent (allSteps initialSession)"
    by (simp add: initialSession_def)
next
  fix s :: session
  assume "dataStream s = map ReasoningStepEvent (allSteps s)"
  then show "dataStream (iteration env msgs s) = map ReasoningStepEvent (allSteps (iteration env msgs s))"
    by (cases rule: iteration_cases[of env msgs s])
       (simp_all add: completeStep_fields enter_fields enter_def)
qed

lemma synthesize_fields:
  "allSteps (synthesize env msgs st) = allSteps st"
  "session.stepIndex (synthesize env msgs st) = session.stepIndex st"
  "stepErrors (synthesize env msgs st) = stepErrors st"
  "scoreHistory (synthesize env msgs st) = scoreHistory st"
  "calls (synthesize env msgs st) =
     calls st @ [synthesisRequest msgs (session.stepIndex st) (allSteps st)]"
  "dataStream (synthesize env msgs st) =
     dataStream st @
       [TextEvent (case generateText env (length (calls st))
                          (synthesisRequest msgs (session.stepIndex st) (allSteps st)) of
                     Inr txt \<Rightarrow> txt
                   | Inl e \<Rightarrow>
                       ''Error generating final synthesis. Please review the reasoning steps above.'')]"
  by (simp_all add: synthesize_def Let_def stepErrors_def split: sum.split)

subsection \<open>Evaluation of the example environments\<close>

lemmas body_simps =
  iteration_def completeStep_def Let_def generateStep_def parseStepData_def extractStepData_def
  jsonMatch_def stepRequest_def contextMessages_def generateDharmaFeedback_def
  terminationLogic_def MINIMUM_STEPS_def singleStepSchema_parse_def dharmaSchema_def
  fallbackStepData_def mean_def number_simps initialSession_def attempt_def

lemmas run_simps = loop.simps body_simps execute_def synthesize_def reasons_def stepErrors_def
  show_nat.simps digit_def degradedStep_def

lemma plain_attempt:
  "attempt plainEnv question initialSession = Inr (degradedStep 1 ''plain answer'')"
  by (simp add: run_simps plainEnv_def)

lemma plain_errors: "stepErrors (loop plainEnv question initialSession) = []"
  by (simp add: run_simps plainEnv_def)

lemma plain_reasons:
  "reasons (loop plainEnv question initialSession) =
     [''minimum_steps_required'', ''minimum_steps_required'', ''max_steps_reached'']"
  by (simp add: run_simps plainEnv_def)

lemma lenient_attempt:
  "attempt lenientEnv question st = Inr (degradedStep (Suc (session.stepIndex st)) ''plain answer'')"
  by (simp add: body_simps lenientEnv_def degradedStep_def)

lemma lenient_errors: "stepErrors (execute lenientEnv question) = []"
  by (simp add: run_simps lenientEnv_def)

lemma lenient_steps: "length (allSteps (execute lenientEnv question)) = 4"
  by (simp add: run_simps lenientEnv_def)

lemma afterThree_stepIndex: "session.stepIndex afterThree = 3"
  by (simp add: afterThree_def stepIndex_iteration initialSession_def)

lemma afterThree_running: "shouldContinue afterThree"
  by (simp add: afterThree_def body_simps lenientEnv_def)

lemma outOfRange_calls: "length (calls (loop outOfRangeEnv question initialSession)) = 3"
  by (simp add: run_simps outOfRangeEnv_def outOfRangeText_def outOfRangeJSON_def)

lemma plain_calls: "length (calls (loop plainEnv question initialSession)) = 6"
  by (simp add: run_simps plainEnv_def)

lemma outOfRange_errors: "stepErrors (loop outOfRangeEnv question initialSession) = [(2, ZodError)]"
  by (simp add: run_simps outOfRangeEnv_def outOfRangeText_def outOfRangeJSON_def)

lemma outOfRange_titles:
  "map (\<lambda>s. (reasoningStep.title s, reasoningStep.content s)) (allSteps (loop outOfRangeEnv question initialSession)) =
     [(''Reasoning Step 1'', ''plain answer'')]"
  by (simp add: run_simps outOfRangeEnv_def outOfRangeText_def outOfRangeJSON_def)

lemma borderline_attempt:
  "attempt borderlineEnv question borderlineThree = Inr borderlineStep"
  by (simp add: borderlineThree_def body_simps borderlineEnv_def borderlineText_def
        borderlineJSON_def borderlineStep_def borderlineScores_def)

lemma borderlineThree_fields:
  "session.stepIndex borderlineThree = 3"
  "reasons borderlineThree =
     [''minimum_steps_required'', ''minimum_steps_required'', ''minimum_steps_required'']"
  by (simp_all add: borderlineThree_def body_simps reasons_def borderlineEnv_def
        borderlineText_def borderlineJSON_def borderlineScores_def)

lemma borderline_reasons:
  "reasons (loop borderlineEnv question initialSession) =
     [''minimum_steps_required'', ''minimum_steps_required'', ''minimum_steps_required'',
      ''continuing'', ''continuing'', ''max_steps_reached'']"
  by (simp add: run_simps borderlineEnv_def borderlineText_def borderlineJSON_def
        borderlineScores_def)

subsection \<open>Termination decision\<close>

text \<open>
  Claim C1. The minimum is 4. After a generated step with index \<open>Suc (stepIndex st)\<close>, the
  flag \<open>shouldContinue\<close> and the termination reason written to the telemetry follow the
  priority chain: at or above \<open>DHARMA_MAX_STEPS\<close> the loop stops with
  \<open>max_steps_reached\<close>; otherwise below the minimum it continues with
  \<open>minimum_steps_required\<close>, whatever the score; otherwise, when the number that \<open>mean\<close>
  returns for the step, the rounded sum of the four scores divided by 4, is at or above the
  target, it stops with \<open>target_reached\<close>; otherwise it continues with \<open>continuing\<close>. For
  the scores 0.6, 0.7, 0.8 and 0.9 that number is \<open>3 / 4 - 1 / 2 ^ 53\<close>, and with a target
  of 0.75 the fourth step continues.
  When the ceiling is below the minimum, the loop is a bounded number of iterations, at
  most \<open>DHARMA_MAX_STEPS\<close> of them, the counter and the number of recorded steps do not
  exceed the ceiling, and without a step error exactly \<open>DHARMA_MAX_STEPS\<close> steps are
  recorded.
\<close>

theorem termination_priority_chain:
  "MINIMUM_STEPS = 4
   \<and> (attempt env msgs st = Inr v \<longrightarrow>
        (shouldContinue (iteration env msgs st), reasons (iteration env msgs st)) =
          (if DHARMA_MAX_STEPS env \<le> Suc (session.stepIndex st)
             then (False, reasons st @ [''max_steps_reached''])
           else if Suc (session.stepIndex st) < MINIMUM_STEPS
             then (True, reasons st @ [''minimum_steps_required''])
           else if DHARMA_TARGET env \<le> mean (dharma v)
             then (False, reasons st @ [''target_reached''])
           else (True, reasons st @ [''continuing''])))
   \<and> (DHARMA_MAX_STEPS env < MINIMUM_STEPS \<longrightarrow>
        (\<exists>k\<le>DHARMA_MAX_STEPS env.
            loop env msgs initialSession = (iteration env msgs ^^ k) initialSession)
        \<and> session.stepIndex (loop env msgs initialSession) \<le> DHARMA_MAX_STEPS env
        \<and> length (allSteps (loop env msgs initialSession)) \<le> DHARMA_MAX_STEPS env
        \<and> (stepErrors (loop env msgs initialSession) = [] \<longrightarrow>
             length (allSteps (loop env msgs initialSession)) = DHARMA_MAX_STEPS env))"
proof (intro conjI impI)
  show "MINIMUM_STEPS = 4" by (simp add: MINIMUM_STEPS_def)
next
  assume "attempt env msgs st = Inr v"
  then have "iteration env msgs st = completeStep env v (enter env msgs st)"
    by (rule iteration_success)
  then show "(shouldContinue (iteration env msgs st), reasons (iteration env msgs st)) =
          (if DHARMA_MAX_STEPS env \<le> Suc (session.stepIndex st)
             then (False, reasons st @ [''max_steps_reached''])
           else if Suc (session.stepIndex st) < MINIMUM_STEPS
             then (True, reasons st @ [''minimum_steps_required''])
           else if DHARMA_TARGET env \<le> mean (dharma v)
             then (False, reasons st @ [''target_reached''])
           else (True, reasons st @ [''continuing'']))"
    by (simp add: completeStep_fields enter_fields terminationLogic_def)
next
  show "\<exists>k\<le>DHARMA_MAX_STEPS env.
            loop env msgs initialSession = (iteration env msgs ^^ k) initialSession"
    using loop_funpow[of env initialSession msgs] by (simp add: initialSession_def)
next
  show "session.stepIndex (loop env msgs initialSession) \<le> DHARMA_MAX_STEPS env"
    by (rule stepIndex_loop_le) (simp add: initialSession_def)
next
  show "length (allSteps (loop env msgs initialSession)) \<le> DHARMA_MAX_STEPS env"
    by (rule allSteps_loop_bounds)
next
  assume small: "DHARMA_MAX_STEPS env < MINIMUM_STEPS"
     and noerr: "stepErrors (loop env msgs initialSession) = []"
  have "min MINIMUM_STEPS (DHARMA_MAX_STEPS env) \<le> length (allSteps (loop env msgs initialSession))"
    using noerr by (rule allSteps_loop_bounds)
  moreover have "length (allSteps (loop env msgs initialSession)) \<le> DHARMA_MAX_STEPS env"
    by (rule allSteps_loop_bounds)
  ultimately show "length (allSteps (loop env msgs initialSession)) = DHARMA_MAX_STEPS env"
    using small by simp
qed

theorem termination_priority_chain_witness:
  "attempt plainEnv question initialSession = Inr (degradedStep 1 ''plain answer'')
   \<and> shouldContinue (iteration plainEnv question initialSession)
   \<and> reasons (iteration plainEnv question initialSession) = [''minimum_steps_required'']
   \<and> DHARMA_MAX_STEPS plainEnv < MINIMUM_STEPS
   \<and> stepErrors (loop plainEnv question initialSession) = []
   \<and> length (allSteps (loop plainEnv question initialSession)) = 3
   \<and> reasons (loop plainEnv question initialSession) =
       [''minimum_steps_required'', ''minimum_steps_required'', ''max_steps_reached'']
   \<and> attempt borderlineEnv question borderlineThree = Inr borderlineStep
   \<and> mean (dharma borderlineStep) = 3 / 4 - 1 / 2 ^ 53
   \<and> shouldContinue (iteration borderlineEnv question borderlineThree)
   \<and> reasons (iteration borderlineEnv question borderlineThree) =
       [''minimum_steps_required'', ''minimum_steps_required'', ''minimum_steps_required'',
        ''continuing'']
   \<and> reasons (loop borderlineEnv question initialSession) =
       [''minimum_steps_required'', ''minimum_steps_required'', ''minimum_steps_required'',
        ''continuing'', ''continuing'', ''max_steps_reached'']"
proof -
  have small: "DHARMA_MAX_STEPS plainEnv < MINIMUM_STEPS"
    by (simp add: plainEnv_def MINIMUM_STEPS_def)
  have start: "reasons initialSession = []" "session.stepIndex initialSession = 0"
    by (simp_all add: reasons_def initialSession_def)
  have three: "DHARMA_MAX_STEPS plainEnv = 3" by (simp add: plainEnv_def)
  have cfg: "DHARMA_MAX_STEPS borderlineEnv = 6" "DHARMA_TARGET borderlineEnv = 3 / 4"
    by (simp_all add: borderlineEnv_def)
  have score: "mean (dharma borderlineStep) = 3 / 4 - 1 / 2 ^ 53"
    by (simp add: borderlineStep_def mean_borderline)
  have below: "\<not> DHARMA_TARGET borderlineEnv \<le> mean (dharma borderlineStep)"
    unfolding cfg score by simp
  have fourth: "shouldContinue (iteration borderlineEnv question borderlineThree)
    \<and> reasons (iteration borderlineEnv question borderlineThree) =
       [''minimum_steps_required'', ''minimum_steps_required'', ''minimum_steps_required'',
        ''continuing'']"
    using termination_priority_chain [of borderlineEnv question borderlineThree borderlineStep]
      borderline_attempt borderlineThree_fields cfg(1) below
    by (simp add: MINIMUM_STEPS_def)
  have first: "attempt plainEnv question initialSession = Inr (degradedStep 1 ''plain answer'')
    \<and> shouldContinue (iteration plainEnv question initialSession)
    \<and> reasons (iteration plainEnv question initialSession) = [''minimum_steps_required'']
    \<and> DHARMA_MAX_STEPS plainEnv < MINIMUM_STEPS
    \<and> stepErrors (loop plainEnv question initialSession) = []
    \<and> length (allSteps (loop plainEnv question initialSession)) = 3
    \<and> reasons (loop plainEnv question initialSession) =
       [''minimum_steps_required'', ''minimum_steps_required'', ''max_steps_reached'']"
    using termination_priority_chain
            [of plainEnv question initialSession "degradedStep 1 ''plain answer''"]
      plain_attempt plain_errors plain_reasons small start three
    by (simp add: MINIMUM_STEPS_def)
  show ?thesis
    using first fourth borderline_attempt score borderline_reasons by simp
qed

text \<open>
  Claim C4. When a step with index at least 4 and below \<open>DHARMA_MAX_STEPS\<close> is generated
  and the number that \<open>mean\<close> returns for its scores, the aggregate that the handler
  compares, is at or above the target, the iteration clears \<open>shouldContinue\<close>, logs the
  reason \<open>target_reached\<close>, marks the recorded step as the final one, and the loop returns
  the state of that iteration: no further iteration runs.
\<close>

theorem target_reached_stops_loop:
  assumes "attempt env msgs st = Inr v"
      and "MINIMUM_STEPS \<le> Suc (session.stepIndex st)"
      and "Suc (session.stepIndex st) < DHARMA_MAX_STEPS env"
      and "DHARMA_TARGET env \<le> mean (dharma v)"
  shows "\<not> shouldContinue (iteration env msgs st)
         \<and> reasons (iteration env msgs st) = reasons st @ [''target_reached'']
         \<and> nextStep (last (allSteps (iteration env msgs st))) = ''finalAnswer''
         \<and> loop env msgs (iteration env msgs st) = iteration env msgs st
         \<and> (shouldContinue st \<longrightarrow> loop env msgs st = iteration env msgs st)"
proof -
  have it: "iteration env msgs st = completeStep env v (enter env msgs st)"
    using assms(1) by (rule iteration_success)
  have tl: "terminationLogic (DHARMA_MAX_STEPS env) (DHARMA_TARGET env) (Suc (session.stepIndex st))
              (mean (dharma v)) = (False, ''target_reached'')"
    using assms(2-4) by (simp add: terminationLogic_def)
  have stop: "\<not> shouldContinue (iteration env msgs st)"
    by (simp add: it completeStep_fields enter_fields tl)
  have same: "loop env msgs (iteration env msgs st) = iteration env msgs st"
    using stop by (simp add: loop.simps[of env msgs "iteration env msgs st"])
  have "shouldContinue st \<longrightarrow> loop env msgs st = iteration env msgs st"
    using assms(3) same by (simp add: loop.simps[of env msgs st])
  moreover have "reasons (iteration env msgs st) = reasons st @ [''target_reached'']"
    by (simp add: it completeStep_fields enter_fields tl)
  moreover have "nextStep (last (allSteps (iteration env msgs st))) = ''finalAnswer''"
    by (simp add: it completeStep_fields enter_fields enrich_def tl)
  ultimately show ?thesis using stop same by simp
qed

theorem target_reached_stops_loop_witness:
  "attempt lenientEnv question afterThree = Inr (degradedStep 4 ''plain answer'')
   \<and> MINIMUM_STEPS \<le> Suc (session.stepIndex afterThree)
   \<and> Suc (session.stepIndex afterThree) < DHARMA_MAX_STEPS lenientEnv
   \<and> DHARMA_TARGET lenientEnv \<le> mean (dharma (degradedStep 4 ''plain answer''))
   \<and> shouldContinue afterThree
   \<and> \<not> shouldContinue (iteration lenientEnv question afterThree)
   \<and> loop lenientEnv question afterThree = iteration lenientEnv question afterThree
   \<and> session.stepIndex (loop lenientEnv question afterThree) = 4"
proof -
  have a: "attempt lenientEnv question afterThree = Inr (degradedStep 4 ''plain answer'')"
    by (simp add: lenient_attempt afterThree_stepIndex)
  have b: "MINIMUM_STEPS \<le> Suc (session.stepIndex afterThree)"
    by (simp add: afterThree_stepIndex MINIMUM_STEPS_def)
  have c: "Suc (session.stepIndex afterThree) < DHARMA_MAX_STEPS lenientEnv"
    by (simp add: afterThree_stepIndex lenientEnv_def)
  have d: "DHARMA_TARGET lenientEnv \<le> mean (dharma (degradedStep 4 ''plain answer''))"
    by (simp add: lenientEnv_def degradedStep_def mean_half)
  show ?thesis
    using target_reached_stops_loop [OF a b c d] a b c d afterThree_running
    by (simp add: stepIndex_iteration afterThree_stepIndex)
qed

subsection \<open>Number of steps\<close>

text \<open>
  Claim C2, as stated, fails: with a ceiling of 3 the session records 3 steps, fewer than
  the minimum of 4, and no step error occurred.
\<close>

theorem fewer_than_minimum_without_error:
  "stepErrors (execute plainEnv question) = []
   \<and> length (allSteps (execute plainEnv question)) = 3
   \<and> \<not> MINIMUM_STEPS \<le> length (allSteps (execute plainEnv question))"
  by (simp add: run_simps plainEnv_def)

text \<open>
  Claim C2, amended. A session never records more than \<open>DHARMA_MAX_STEPS\<close> steps, and, unless
  a step error aborted the loop, never fewer than the smaller of the minimum (4) and
  \<open>DHARMA_MAX_STEPS\<close>.
\<close>

theorem step_count_bounds:
  "length (allSteps (execute env msgs)) \<le> DHARMA_MAX_STEPS env
   \<and> (stepErrors (execute env msgs) = [] \<longrightarrow>
        min MINIMUM_STEPS (DHARMA_MAX_STEPS env) \<le> length (allSteps (execute env msgs)))"
  using allSteps_loop_bounds[of env msgs]
  by (simp add: execute_def synthesize_fields)

theorem step_count_bounds_witness:
  "stepErrors (execute lenientEnv question) = []
   \<and> length (allSteps (execute lenientEnv question)) = 4
   \<and> length (allSteps (execute lenientEnv question)) \<le> DHARMA_MAX_STEPS lenientEnv
   \<and> min MINIMUM_STEPS (DHARMA_MAX_STEPS lenientEnv) \<le> length (allSteps (execute lenientEnv question))"
  using step_count_bounds [of lenientEnv question] lenient_errors lenient_steps by simp

subsection \<open>The outbound stream\<close>

text \<open>
  Claim C7. The stream of a session is the reasoning-step events of the recorded steps, in
  order, followed by one text event. The text event carries the answer of the synthesis
  call when that call succeeds and the fixed diagnostic message when it fails. It is the
  only text event of the stream.
\<close>

theorem one_text_event_after_steps:
  "dataStream (execute env msgs) =
     map ReasoningStepEvent (allSteps (loop env msgs initialSession)) @
     [TextEvent
        (case generateText env (length (calls (loop env msgs initialSession)))
                (synthesisRequest msgs (session.stepIndex (loop env msgs initialSession))
                   (allSteps (loop env msgs initialSession))) of
           Inr txt \<Rightarrow> txt
         | Inl e \<Rightarrow> ''Error generating final synthesis. Please review the reasoning steps above.'')]
   \<and> length (filter isTextEvent (dataStream (execute env msgs))) = 1"
  by (simp add: execute_def synthesize_fields dataStream_loop filter_map comp_def)

theorem one_text_event_after_steps_witness:
  "dataStream (execute outOfRangeEnv question) =
     map ReasoningStepEvent (allSteps (loop outOfRangeEnv question initialSession)) @
     [TextEvent ''Error generating final synthesis. Please review the reasoning steps above.'']
   \<and> dataStream (execute plainEnv question) =
     map ReasoningStepEvent (allSteps (loop plainEnv question initialSession)) @
     [TextEvent ''plain answer'']"
  using one_text_event_after_steps [of outOfRangeEnv question] one_text_event_after_steps [of plainEnv question] outOfRange_calls plain_calls
  by (simp add: outOfRangeEnv_def plainEnv_def)

subsection \<open>A step error and the synthesis prompt\<close>

text \<open>
  Claim C10. If a step error aborted iteration \<open>N\<close>, the loop ends with the counter at \<open>N\<close>
  while one step fewer is recorded and streamed. The last request of the session is the
  synthesis request: the inbound messages, then the assistant message whose text opens
  with the statement that \<open>N\<close> reasoning steps were completed and goes on with one block,
  numbered from 1 with title and content, for each recorded step, \<open>N - 1\<close> blocks in all,
  then the closing instruction; then the user message that asks for the answer.
\<close>

theorem fatal_error_counter_ahead_of_steps:
  assumes "(N, e) \<in> set (stepErrors (loop env msgs initialSession))"
  shows "session.stepIndex (loop env msgs initialSession) = N
         \<and> Suc (length (allSteps (loop env msgs initialSession))) = N
         \<and> dataStream (loop env msgs initialSession) =
             map ReasoningStepEvent (allSteps (loop env msgs initialSession))
         \<and> messages (last (calls (execute env msgs))) =
             msgs @
             [\<lparr>role = ''assistant'',
               content = Text
                 (''You have completed '' @ show_nat N @ '' reasoning steps:\<newline>'' @
                  ''\<newline>'' @
                  join ''\<newline>''
                    (map (\<lambda>(i, s). ''\<newline>'' @
                            ''Step '' @ show_nat (i + 1) @ '': '' @ reasoningStep.title s @
                            ''\<newline>'' @
                            reasoningStep.content s @ ''\<newline>'')
                       (enumerate 0 (allSteps (loop env msgs initialSession)))) @
                  ''\<newline>'' @
                  ''\<newline>'' @
                  ''Now provide a clear, concise final answer that synthesizes all of your reasoning. \<newline>'' @
                  ''Be direct and actionable. This is your final response to the user.'')\<rparr>,
              \<lparr>role = ''user'',
               content = Text ''Please provide your final synthesized answer based on all reasoning steps.''\<rparr>]
         \<and> map fst (enumerate 0 (allSteps (loop env msgs initialSession))) = [0..<N - 1]"
proof -
  let ?S = "loop env msgs initialSession"
  have c: "counted env ?S" by (rule counted_loop)
  from assms have ne: "stepErrors ?S \<noteq> []" by auto
  with c have idx: "session.stepIndex ?S = Suc (length (allSteps ?S))"
    and one: "map fst (stepErrors ?S) = [session.stepIndex ?S]"
    by (simp_all add: counted_def)
  from assms have "N \<in> set (map fst (stepErrors ?S))" by force
  with one have n: "session.stepIndex ?S = N" by simp
  have len: "length (allSteps ?S) = N - 1" using n idx by simp
  have blocks: "map fst (enumerate 0 (allSteps ?S)) = [0..<N - 1]"
    by (simp add: len)
  show ?thesis
    using n idx blocks
    by (simp add: execute_def synthesize_fields dataStream_loop synthesisRequest_def
          synthesisPrompt_def)
qed

theorem fatal_error_counter_ahead_of_steps_witness:
  "(2, ZodError) \<in> set (stepErrors (loop outOfRangeEnv question initialSession))
   \<and> session.stepIndex (loop outOfRangeEnv question initialSession) = 2
   \<and> length (allSteps (loop outOfRangeEnv question initialSession)) = 1
   \<and> messages (last (calls (execute outOfRangeEnv question))) =
       question @
       [\<lparr>role = ''assistant'',
         content = Text (''You have completed 2 reasoning steps:\<newline>\<newline>'' @
           ''\<newline>Step 1: Reasoning Step 1\<newline>plain answer\<newline>\<newline>\<newline>'' @
           ''Now provide a clear, concise final answer that synthesizes all of your reasoning. \<newline>'' @
           ''Be direct and actionable. This is your final response to the user.'')\<rparr>,
        \<lparr>role = ''user'',
         content = Text ''Please provide your final synthesized answer based on all reasoning steps.''\<rparr>]"
proof -
  have a: "(2, ZodError) \<in> set (stepErrors (loop outOfRangeEnv question initialSession))"
    by (simp add: outOfRange_errors)
  obtain s where s: "allSteps (loop outOfRangeEnv question initialSession) = [s]"
     "reasoningStep.title s = ''Reasoning Step 1''" "reasoningStep.content s = ''plain answer''"
    using outOfRange_titles by auto
  show ?thesis
    using fatal_error_counter_ahead_of_steps [OF a] a s
    by (simp add: enumerate_eq_zip show_nat.simps digit_def)
qed

subsection \<open>Malformed answers of the model\<close>

lemma attempt_stepResponse:
  "attempt env msgs st =
     (case stepResponse env msgs st of
        Inl e \<Rightarrow> Inl e
      | Inr txt \<Rightarrow>
          singleStepSchema_parse (parseStepData (JSON_parse env) (Suc (session.stepIndex st)) txt))"
  by (simp add: attempt_def stepResponse_def generateStep_def)

lemma fallback_validates:
  "singleStepSchema_parse (fallbackStepData idx txt) = Inr (degradedStep idx txt)"
  by (simp add: singleStepSchema_parse_def fallbackStepData_def dharmaSchema_def degradedStep_def)

lemma mean_degradedStep: "mean (dharma (degradedStep idx txt)) = 1 / 2"
  by (simp add: degradedStep_def mean_half)

lemma out_of_range_rejected:
  assumes "getProp j ''dharma'' = Some d"
      and "getProp d k = Some (JNumber x)"
      and "k \<in> set [''mindfulness'', ''emptiness'', ''nonDuality'', ''boundlessCare'']"
      and "x < 0 \<or> 1 < x"
  shows "singleStepSchema_parse j = Inl ZodError"
proof -
  have "z_number_min0_max1 (getProp d k) = None"
    using assms(2,4) by auto
  then have "dharmaSchema (Some d) = None"
    using assms(3) by (auto simp: dharmaSchema_def split: option.splits)
  then show ?thesis
    using assms(1) by (simp add: singleStepSchema_parse_def split: option.splits)
qed

lemma plain_response: "stepResponse plainEnv question initialSession = Inr ''plain answer''"
  by (simp add: stepResponse_def plainEnv_def initialSession_def)

lemma plain_extract: "extractStepData (JSON_parse plainEnv) ''plain answer'' = Inl NoJSONFound"
  by (simp add: extractStepData_def jsonMatch_def)

lemma afterOne_fields:
  "session.stepIndex afterOne = 1" "length (calls afterOne) = 2" "allSteps afterOne \<noteq> []"
  "stepErrors afterOne = []" "length (allSteps afterOne) = 1" "shouldContinue afterOne"
  by (simp_all add: afterOne_def body_simps outOfRangeEnv_def stepErrors_def)

lemma outOfRange_response: "stepResponse outOfRangeEnv question afterOne = Inr outOfRangeText"
  by (simp add: stepResponse_def afterOne_fields) (simp add: outOfRangeEnv_def)

lemma outOfRange_extract:
  "extractStepData (JSON_parse outOfRangeEnv) outOfRangeText = Inr outOfRangeJSON"
proof -
  have "jsonMatch outOfRangeText = Some outOfRangeText"
    by (simp add: jsonMatch_def outOfRangeText_def)
  then show ?thesis by (simp add: extractStepData_def outOfRangeEnv_def)
qed

text \<open>
  Claim C3, as stated, fails: the answer to the second step request carries a JSON object
  whose \<open>mindfulness\<close> score is 1.5. The schema validation throws, the outer \<open>catch\<close> clears
  \<open>shouldContinue\<close>, no step is recorded for the answer, and the session ends with one
  step and a logged step error.
\<close>

theorem out_of_range_scores_abort_loop:
  "stepResponse outOfRangeEnv question afterOne = Inr outOfRangeText
   \<and> extractStepData (JSON_parse outOfRangeEnv) outOfRangeText = Inr outOfRangeJSON
   \<and> shouldContinue afterOne
   \<and> \<not> shouldContinue (iteration outOfRangeEnv question afterOne)
   \<and> allSteps (iteration outOfRangeEnv question afterOne) = allSteps afterOne
   \<and> stepErrors (execute outOfRangeEnv question) = [(2, ZodError)]
   \<and> length (allSteps (execute outOfRangeEnv question)) = 1"
  using outOfRange_response outOfRange_extract afterOne_fields
  by (simp add: run_simps outOfRangeEnv_def outOfRangeText_def outOfRangeJSON_def afterOne_def)

text \<open>
  Claim C3, amended. An answer from which no JSON can be extracted (no brace-delimited
  match, or \<open>JSON.parse\<close> throws) is replaced by the degraded step: the generic title, the
  raw answer as content, the four scores 0.5 and the rationale that flags the failed
  parsing. That step is recorded, no step error is logged, and the loop goes on as the
  termination logic decides for a score of 0.5. An answer whose JSON parses but carries a
  sub-score outside the interval from 0 to 1 fails the schema validation: no step is
  recorded, the step error is logged and the loop ends.
\<close>

theorem malformed_output_handling:
  "(stepResponse env msgs st = Inr txt \<and> extractStepData (JSON_parse env) txt = Inl err \<longrightarrow>
      attempt env msgs st = Inr (degradedStep (Suc (session.stepIndex st)) txt)
      \<and> length (allSteps (iteration env msgs st)) = Suc (length (allSteps st))
      \<and> reasoningStep.title (last (allSteps (iteration env msgs st))) =
          ''Reasoning Step '' @ show_nat (Suc (session.stepIndex st))
      \<and> reasoningStep.content (last (allSteps (iteration env msgs st))) = txt
      \<and> dharma (last (allSteps (iteration env msgs st))) =
          \<lparr>mindfulness = 0.5, emptiness = 0.5, nonDuality = 0.5, boundlessCare = 0.5,
           rationale = ''Auto-generated (parsing failed)''\<rparr>
      \<and> stepErrors (iteration env msgs st) = stepErrors st
      \<and> shouldContinue (iteration env msgs st) =
          fst (terminationLogic (DHARMA_MAX_STEPS env) (DHARMA_TARGET env)
                 (Suc (session.stepIndex st)) 0.5))
   \<and> (stepResponse env msgs st = Inr txt \<and> extractStepData (JSON_parse env) txt = Inr j
       \<and> getProp j ''dharma'' = Some d \<and> getProp d k = Some (JNumber x)
       \<and> k \<in> set [''mindfulness'', ''emptiness'', ''nonDuality'', ''boundlessCare'']
       \<and> (x < 0 \<or> 1 < x) \<longrightarrow>
      attempt env msgs st = Inl ZodError
      \<and> \<not> shouldContinue (iteration env msgs st)
      \<and> allSteps (iteration env msgs st) = allSteps st
      \<and> stepErrors (iteration env msgs st) = stepErrors st @ [(Suc (session.stepIndex st), ZodError)]
      \<and> loop env msgs (iteration env msgs st) = iteration env msgs st)"
proof (intro conjI impI)
  assume h: "stepResponse env msgs st = Inr txt \<and> extractStepData (JSON_parse env) txt = Inl err"
  let ?v = "degradedStep (Suc (session.stepIndex st)) txt"
  show a: "attempt env msgs st = Inr ?v"
    using h by (simp add: attempt_stepResponse parseStepData_def fallback_validates)
  then have it: "iteration env msgs st = completeStep env ?v (enter env msgs st)"
    by (rule iteration_success)
  show "length (allSteps (iteration env msgs st)) = Suc (length (allSteps st))"
    by (simp add: it completeStep_fields enter_fields)
  show "reasoningStep.title (last (allSteps (iteration env msgs st))) =
          ''Reasoning Step '' @ show_nat (Suc (session.stepIndex st))"
    by (simp add: it completeStep_fields enrich_def degradedStep_def)
  show "reasoningStep.content (last (allSteps (iteration env msgs st))) = txt"
    by (simp add: it completeStep_fields enrich_def degradedStep_def)
  show "dharma (last (allSteps (iteration env msgs st))) =
          \<lparr>mindfulness = 0.5, emptiness = 0.5, nonDuality = 0.5, boundlessCare = 0.5,
           rationale = ''Auto-generated (parsing failed)''\<rparr>"
    by (simp add: it completeStep_fields enrich_def degradedStep_def)
  show "stepErrors (iteration env msgs st) = stepErrors st"
    by (simp add: it completeStep_fields enter_fields)
  show "shouldContinue (iteration env msgs st) =
          fst (terminationLogic (DHARMA_MAX_STEPS env) (DHARMA_TARGET env)
                 (Suc (session.stepIndex st)) 0.5)"
    by (simp add: it completeStep_fields enter_fields mean_degradedStep)
next
  assume h: "stepResponse env msgs st = Inr txt \<and> extractStepData (JSON_parse env) txt = Inr j
       \<and> getProp j ''dharma'' = Some d \<and> getProp d k = Some (JNumber x)
       \<and> k \<in> set [''mindfulness'', ''emptiness'', ''nonDuality'', ''boundlessCare'']
       \<and> (x < 0 \<or> 1 < x)"
  then have "singleStepSchema_parse j = Inl ZodError"
    using out_of_range_rejected[of j d k x] by blast
  then show a: "attempt env msgs st = Inl ZodError"
    using h by (simp add: attempt_stepResponse parseStepData_def)
  note it = iteration_failure[OF a]
  show stop: "\<not> shouldContinue (iteration env msgs st)"
    by (simp add: it)
  show "allSteps (iteration env msgs st) = allSteps st"
    by (simp add: it enter_fields)
  show "stepErrors (iteration env msgs st) = stepErrors st @ [(Suc (session.stepIndex st), ZodError)]"
    by (simp add: it stepErrors_def)
  show "loop env msgs (iteration env msgs st) = iteration env msgs st"
    using stop by (simp add: loop.simps[of env msgs "iteration env msgs st"])
qed

theorem malformed_output_handling_witness:
  "stepResponse plainEnv question initialSession = Inr ''plain answer''
   \<and> extractStepData (JSON_parse plainEnv) ''plain answer'' = Inl NoJSONFound
   \<and> attempt plainEnv question initialSession = Inr (degradedStep 1 ''plain answer'')
   \<and> reasoningStep.title (last (allSteps (iteration plainEnv question initialSession))) = ''Reasoning Step 1''
   \<and> stepErrors (iteration plainEnv question initialSession) = []
   \<and> shouldContinue (iteration plainEnv question initialSession)
   \<and> stepResponse outOfRangeEnv question afterOne = Inr outOfRangeText
   \<and> extractStepData (JSON_parse outOfRangeEnv) outOfRangeText = Inr outOfRangeJSON
   \<and> getProp outOfRangeJSON ''dharma'' =
        Some (JObject [(''mindfulness'', JNumber 1.5), (''emptiness'', JNumber 0.5),
                       (''nonDuality'', JNumber 0.5), (''boundlessCare'', JNumber 0.5),
                       (''rationale'', JString ''sure'')])
   \<and> attempt outOfRangeEnv question afterOne = Inl ZodError
   \<and> \<not> shouldContinue (iteration outOfRangeEnv question afterOne)
   \<and> stepErrors (iteration outOfRangeEnv question afterOne) = [(2, ZodError)]"
proof -
  have d: "getProp outOfRangeJSON ''dharma'' =
        Some (JObject [(''mindfulness'', JNumber 1.5), (''emptiness'', JNumber 0.5),
                       (''nonDuality'', JNumber 0.5), (''boundlessCare'', JNumber 0.5),
                       (''rationale'', JString ''sure'')])"
    by (simp add: outOfRangeJSON_def)
  have start: "session.stepIndex initialSession = 0" "stepErrors initialSession = []"
    by (simp_all add: initialSession_def stepErrors_def)
  show ?thesis
    using malformed_output_handling [of plainEnv question initialSession "''plain answer''" NoJSONFound]
      malformed_output_handling [of outOfRangeEnv question afterOne outOfRangeText _ outOfRangeJSON
             "JObject [(''mindfulness'', JNumber 1.5), (''emptiness'', JNumber 0.5),
                       (''nonDuality'', JNumber 0.5), (''boundlessCare'', JNumber 0.5),
                       (''rationale'', JString ''sure'')]" "''mindfulness''" "1.5"]
      plain_response plain_extract outOfRange_response outOfRange_extract d start afterOne_fields
    by (simp add: plainEnv_def terminationLogic_def MINIMUM_STEPS_def show_nat.simps digit_def)
qed


subsection \<open>The history passed to the feedback generator\<close>

lemma feedbackArgs_stepRequest:
  "feedbackArgs (stepRequest (contextMessages limit msgs idx fb)) = []"
proof -
  let ?ctx = "contextMessages limit msgs idx fb"
  have l: "?ctx \<noteq> [] \<and> last ?ctx = stepInstruction limit idx fb"
    by (simp add: contextMessages_def Let_def)
  have "\<And>m. ?ctx = [m] \<Longrightarrow> m = stepInstruction limit idx fb"
    using l by (metis last.simps)
  then show ?thesis
    by (auto simp: stepRequest_def stepInstruction_def split: list.split prompt.split)
qed

lemma feedbackArgs_feedbackRequest: "feedbackArgs (feedbackRequest c h t) = [(c, h, t)]"
  by (simp add: feedbackRequest_def)

lemma feedbackArgs_synthesisRequest: "feedbackArgs (synthesisRequest msgs idx steps) = []"
  by (simp add: synthesisRequest_def split: list.split)

lemma feedbackCalls_fields:
  "feedbackCalls (enter env msgs st) = feedbackCalls st"
  "feedbackCalls (completeStep env v st) =
     feedbackCalls st @ [(dharma v, scoreHistory st, DHARMA_TARGET env)]"
  "feedbackCalls (synthesize env msgs st) = feedbackCalls st"
  by (simp_all add: feedbackCalls_def enter_fields completeStep_fields synthesize_fields
        feedbackArgs_stepRequest feedbackArgs_feedbackRequest feedbackArgs_synthesisRequest
        del: feedbackArgs.simps)

lemma table_snoc:
  "map (\<lambda>n. f ((xs @ [x]) ! n) (take n (xs @ [x]))) [0..<length (xs @ [x])] =
     map (\<lambda>n. f (xs ! n) (take n xs)) [0..<length xs] @ [f x xs]"
proof -
  have "map (\<lambda>n. f ((xs @ [x]) ! n) (take n (xs @ [x]))) [0..<length xs] =
        map (\<lambda>n. f (xs ! n) (take n xs)) [0..<length xs]"
    by (rule map_cong) (simp_all add: nth_append)
  then show ?thesis by simp
qed

lemma historyKept_initial: "historyKept env initialSession"
  by (simp add: historyKept_def initialSession_def feedbackCalls_def)

lemma historyKept_iteration:
  assumes "historyKept env st" and "shouldContinue st"
  shows "historyKept env (iteration env msgs st)"
proof (cases rule: iteration_cases[of env msgs st])
  case (ok v)
  let ?n = "length (allSteps st)"
  let ?E = "enrich env v (Suc (session.stepIndex st)) (stepFeedback env v (enter env msgs st))"
  from assms have sh: "scoreHistory st = map entryOf (allSteps st)"
    and ix: "map enrichedStep.stepIndex (allSteps st) = [1..<Suc ?n]"
    and fc: "feedbackCalls st =
         map (\<lambda>n. (dharma (allSteps st ! n), map entryOf (take n (allSteps st)), DHARMA_TARGET env))
           [0..<?n]"
    and idx: "session.stepIndex st = ?n"
    by (simp_all add: historyKept_def)
  have all: "allSteps (iteration env msgs st) = allSteps st @ [?E]"
    by (simp add: ok completeStep_fields enter_fields)
  have h1: "scoreHistory (iteration env msgs st) = map entryOf (allSteps (iteration env msgs st))"
    by (simp add: ok completeStep_fields enter_fields sh)
  have h2: "map enrichedStep.stepIndex (allSteps (iteration env msgs st)) =
              [1..<Suc (length (allSteps (iteration env msgs st)))]"
    by (simp add: all ix idx enrich_def)
  have h3: "feedbackCalls (iteration env msgs st) =
         map (\<lambda>n. (dharma (allSteps (iteration env msgs st) ! n),
                    map entryOf (take n (allSteps (iteration env msgs st))), DHARMA_TARGET env))
           [0..<length (allSteps (iteration env msgs st))]"
  proof -
    have "feedbackCalls (iteration env msgs st) =
            feedbackCalls st @ [(dharma v, map entryOf (allSteps st), DHARMA_TARGET env)]"
      by (simp add: ok feedbackCalls_fields enter_fields sh)
    also have "dharma v = dharma ?E" by (simp add: enrich_def)
    finally show ?thesis
      unfolding all fc
      using table_snoc[of "\<lambda>s ss. (dharma s, map entryOf ss, DHARMA_TARGET env)" "allSteps st" ?E]
      by simp
  qed
  have h4: "session.stepIndex (iteration env msgs st) = length (allSteps (iteration env msgs st))"
    by (simp add: stepIndex_iteration all idx)
  show ?thesis using h1 h2 h3 h4 by (simp add: historyKept_def)
next
  case (err e)
  have "feedbackCalls (iteration env msgs st) = feedbackCalls st"
    using feedbackCalls_fields(1)[of env msgs st]
    by (simp add: err feedbackCalls_def enter_def)
  then show ?thesis
    using assms(1) by (simp add: historyKept_def err enter_fields enter_def)
qed

lemma historyKept_loop: "historyKept env (loop env msgs initialSession)"
  by (rule loop_invariant) (simp_all add: historyKept_initial historyKept_iteration)

lemma stepContexts_fields:
  "stepContexts (enter env msgs st) =
     stepContexts st @
       [contextMessages (DHARMA_MAX_STEPS env) msgs (Suc (session.stepIndex st)) (previousFeedback st)]"
  "stepContexts (completeStep env v st) = stepContexts st"
  "stepContexts (synthesize env msgs st) = stepContexts st"
  by (simp_all add: stepContexts_def enter_fields completeStep_fields synthesize_fields
        stepRequest_def feedbackRequest_def synthesisRequest_def)

lemma previous_table_snoc:
  "map (\<lambda>n. g n (if n = 0 then d else h ((xs @ ys) ! (n - 1)))) [0..<Suc (length xs)] =
     map (\<lambda>n. g n (if n = 0 then d else h (xs ! (n - 1)))) [0..<length xs] @
     [g (length xs) (if xs = [] then d else h (last xs))]"
proof -
  have "map (\<lambda>n. g n (if n = 0 then d else h ((xs @ ys) ! (n - 1)))) [0..<length xs] =
        map (\<lambda>n. g n (if n = 0 then d else h (xs ! (n - 1)))) [0..<length xs]"
    by (rule map_cong) (auto simp: nth_append)
  moreover have "xs \<noteq> [] \<Longrightarrow> (xs @ ys) ! (length xs - 1) = last xs"
    by (simp add: nth_append last_conv_nth)
  ultimately show ?thesis by auto
qed

lemma contextsKept_initial: "contextsKept env msgs initialSession"
  by (simp add: contextsKept_def initialSession_def stepContexts_def)

lemma contextsKept_iteration:
  assumes "contextsKept env msgs st" and "shouldContinue st"
  shows "contextsKept env msgs (iteration env msgs st)"
proof -
  let ?F = "\<lambda>steps n. contextMessages (DHARMA_MAX_STEPS env) msgs (Suc n)
                  (if n = 0 then [] else serverFeedback (steps ! (n - 1)))"
  from assms have sc: "stepContexts st = map (?F (allSteps st)) [0..<session.stepIndex st]"
    and pf: "previousFeedback st =
         (if allSteps st = [] then [] else serverFeedback (last (allSteps st)))"
    and idx: "session.stepIndex st = length (allSteps st)"
    by (simp_all add: contextsKept_def)
  have grow: "stepContexts (enter env msgs st) =
                map (?F (allSteps st @ ys)) [0..<Suc (length (allSteps st))]" for ys
    unfolding stepContexts_fields sc idx pf
    using previous_table_snoc
            [of "\<lambda>n fb. contextMessages (DHARMA_MAX_STEPS env) msgs (Suc n) fb" "[]"
                serverFeedback "allSteps st" ys]
    by simp
  show ?thesis
  proof (cases rule: iteration_cases[of env msgs st])
    case (ok v)
    define E where
      "E = enrich env v (Suc (session.stepIndex st)) (stepFeedback env v (enter env msgs st))"
    have all: "allSteps (iteration env msgs st) = allSteps st @ [E]"
      by (simp add: ok completeStep_fields enter_fields E_def)
    have "stepContexts (iteration env msgs st) = stepContexts (enter env msgs st)"
      by (simp add: ok stepContexts_fields)
    also have "\<dots> = map (?F (allSteps st @ [E])) [0..<Suc (length (allSteps st))]"
      by (rule grow)
    finally have "stepContexts (iteration env msgs st) =
            map (?F (allSteps (iteration env msgs st))) [0..<session.stepIndex (iteration env msgs st)]"
      by (simp only: all stepIndex_iteration idx)
    moreover have "previousFeedback (iteration env msgs st) =
            serverFeedback (last (allSteps (iteration env msgs st)))"
      by (simp add: ok completeStep_fields enrich_def)
    moreover have "session.stepIndex (iteration env msgs st) = length (allSteps (iteration env msgs st))"
      by (simp add: stepIndex_iteration all idx)
    ultimately show ?thesis by (simp add: contextsKept_def all)
  next
    case (err e)
    have same: "allSteps (iteration env msgs st) = allSteps st"
      "previousFeedback (iteration env msgs st) = previousFeedback st"
      "\<not> shouldContinue (iteration env msgs st)"
      by (simp_all add: err enter_def)
    have "stepContexts (iteration env msgs st) = stepContexts (enter env msgs st)"
      by (simp add: err stepContexts_def)
    also have "\<dots> = map (?F (allSteps st @ [])) [0..<Suc (length (allSteps st))]"
      by (rule grow)
    finally have "stepContexts (iteration env msgs st) =
            map (?F (allSteps (iteration env msgs st))) [0..<session.stepIndex (iteration env msgs st)]"
      by (simp only: same stepIndex_iteration idx append_Nil2)
    then show ?thesis using same pf by (simp add: contextsKept_def)
  qed
qed

lemma contextsKept_loop: "contextsKept env msgs (loop env msgs initialSession)"
  by (rule loop_invariant) (simp_all add: contextsKept_initial contextsKept_iteration)

lemma stepIndex_le_Suc_allSteps:
  "session.stepIndex (loop env msgs initialSession) \<le> Suc (length (allSteps (loop env msgs initialSession)))"
  using counted_loop[of env msgs] by (auto simp: counted_def split: if_splits)

lemma length_feedbackCalls:
  "length (feedbackCalls (execute env msgs)) = length (allSteps (execute env msgs))"
proof -
  have "length (feedbackCalls (loop env msgs initialSession)) =
          length (allSteps (loop env msgs initialSession))"
    using historyKept_loop[of env msgs] by (simp add: historyKept_def)
  then show ?thesis by (simp add: execute_def feedbackCalls_fields synthesize_fields)
qed

lemma length_stepContexts:
  "length (stepContexts (execute env msgs)) = session.stepIndex (execute env msgs)"
proof -
  have "length (stepContexts (loop env msgs initialSession)) =
          session.stepIndex (loop env msgs initialSession)"
    using contextsKept_loop[of env msgs] by (simp add: contextsKept_def)
  then show ?thesis by (simp add: execute_def stepContexts_fields synthesize_fields)
qed

lemma plain_steps:
  "length (allSteps (execute plainEnv question)) = 3" "session.stepIndex (execute plainEnv question) = 3"
  by (simp_all add: run_simps plainEnv_def)

lemma outOfRange_steps:
  "length (allSteps (execute outOfRangeEnv question)) = 1" "session.stepIndex (execute outOfRangeEnv question) = 2"
  by (simp_all add: run_simps outOfRangeEnv_def outOfRangeText_def outOfRangeJSON_def)

lemma plain_feedbackCalls: "length (feedbackCalls (execute plainEnv question)) = 3"
  by (simp add: length_feedbackCalls plain_steps)

lemma plain_entries:
  "map entryOf (allSteps (execute plainEnv question)) =
     [\<lparr>step = 1,
       scores = \<lparr>mindfulness = 0.5, emptiness = 0.5, nonDuality = 0.5, boundlessCare = 0.5\<rparr>,
       mean = 0.5, content = ''plain answer''\<rparr>,
      \<lparr>step = 2,
       scores = \<lparr>mindfulness = 0.5, emptiness = 0.5, nonDuality = 0.5, boundlessCare = 0.5\<rparr>,
       mean = 0.5, content = ''plain answer''\<rparr>,
      \<lparr>step = 3,
       scores = \<lparr>mindfulness = 0.5, emptiness = 0.5, nonDuality = 0.5, boundlessCare = 0.5\<rparr>,
       mean = 0.5, content = ''plain answer''\<rparr>]"
  by (simp add: run_simps plainEnv_def entryOf_def)

lemma plain_feedback:
  "map serverFeedback (allSteps (execute plainEnv question)) =
     [''first advice'', ''second advice'', ''plain answer'']"
  by (simp add: run_simps plainEnv_def trimASCII_def isWhiteSpace_def)

lemma plain_contexts: "length (stepContexts (execute plainEnv question)) = 3"
  by (simp add: length_stepContexts plain_steps)

lemma outOfRange_feedback: "map serverFeedback (allSteps (execute outOfRangeEnv question)) = [[]]"
  by (simp add: run_simps outOfRangeEnv_def outOfRangeText_def outOfRangeJSON_def trimASCII_def
        isWhiteSpace_def)

lemma outOfRange_contexts: "length (stepContexts (execute outOfRangeEnv question)) = 2"
  by (simp add: length_stepContexts outOfRange_steps)

text \<open>
  Claim C5. Counting the feedback calls of a session from 0, call number \<open>N\<close> is the call
  for step \<open>N + 1\<close>: its current scores are those of the recorded step with index \<open>N + 1\<close>,
  and the history it receives is the list of entries of the first \<open>N\<close> recorded steps, whose
  step indices are 1 to \<open>N\<close> in this order. The entry of step \<open>N + 1\<close> is not in it.
\<close>

theorem feedback_history_is_prior_steps:
  assumes "N < length (feedbackCalls (execute env msgs))"
  shows "N < length (allSteps (execute env msgs))
         \<and> enrichedStep.stepIndex (allSteps (execute env msgs) ! N) = Suc N
         \<and> feedbackCalls (execute env msgs) ! N =
             (dharma (allSteps (execute env msgs) ! N),
              map entryOf (take N (allSteps (execute env msgs))),
              DHARMA_TARGET env)
         \<and> map step (map entryOf (take N (allSteps (execute env msgs)))) = [1..<Suc N]"
proof -
  let ?S = "loop env msgs initialSession"
  have k: "historyKept env ?S" by (rule historyKept_loop)
  have eq: "feedbackCalls (execute env msgs) = feedbackCalls ?S"
           "allSteps (execute env msgs) = allSteps ?S"
    by (simp_all add: execute_def feedbackCalls_fields synthesize_fields)
  from k have fc: "feedbackCalls ?S =
         map (\<lambda>n. (dharma (allSteps ?S ! n), map entryOf (take n (allSteps ?S)), DHARMA_TARGET env))
           [0..<length (allSteps ?S)]"
    and ix: "map enrichedStep.stepIndex (allSteps ?S) = [1..<Suc (length (allSteps ?S))]"
    by (simp_all add: historyKept_def)
  from assms have n: "N < length (allSteps ?S)"
    unfolding eq by (subst (asm) fc) simp
  have a: "feedbackCalls ?S ! N =
             (dharma (allSteps ?S ! N), map entryOf (take N (allSteps ?S)), DHARMA_TARGET env)"
    by (subst fc) (simp add: n)
  have b: "enrichedStep.stepIndex (allSteps ?S ! N) = Suc N"
  proof -
    have "enrichedStep.stepIndex (allSteps ?S ! N) = map enrichedStep.stepIndex (allSteps ?S) ! N"
      using n by simp
    also have "\<dots> = [1..<Suc (length (allSteps ?S))] ! N" by (simp only: ix)
    also have "\<dots> = Suc N" using n by (simp add: nth_upt del: upt_Suc)
    finally show ?thesis .
  qed
  have c: "map step (map entryOf (take N (allSteps ?S))) = [1..<Suc N]"
  proof -
    have "map step (map entryOf (take N (allSteps ?S))) =
            take N (map enrichedStep.stepIndex (allSteps ?S))"
      by (simp add: take_map entryOf_def comp_def)
    also have "\<dots> = take N [1..<Suc (length (allSteps ?S))]" by (simp only: ix)
    also have "\<dots> = [1..<Suc N]" using n by (simp add: take_upt)
    finally show ?thesis .
  qed
  show ?thesis using n a b c by (simp add: eq)
qed


theorem feedback_history_is_prior_steps_witness:
  "2 < length (feedbackCalls (execute plainEnv question))
   \<and> enrichedStep.stepIndex (allSteps (execute plainEnv question) ! 2) = 3
   \<and> fst (snd (feedbackCalls (execute plainEnv question) ! 2)) =
       [\<lparr>step = 1,
         scores = \<lparr>mindfulness = 0.5, emptiness = 0.5, nonDuality = 0.5, boundlessCare = 0.5\<rparr>,
         mean = 0.5, content = ''plain answer''\<rparr>,
        \<lparr>step = 2,
         scores = \<lparr>mindfulness = 0.5, emptiness = 0.5, nonDuality = 0.5, boundlessCare = 0.5\<rparr>,
         mean = 0.5, content = ''plain answer''\<rparr>]"
proof -
  have two: "2 < length (feedbackCalls (execute plainEnv question))"
    by (simp add: plain_feedbackCalls)
  have "map entryOf (take 2 (allSteps (execute plainEnv question))) =
          take 2 (map entryOf (allSteps (execute plainEnv question)))"
    by (simp only: take_map)
  then show ?thesis
    using feedback_history_is_prior_steps [OF two] two by (simp add: plain_entries)
qed

subsection \<open>Feedback injection\<close>

lemma outOfRange_stepContexts:
  "stepContexts (execute outOfRangeEnv question) =
     [question @ [stepInstruction 10 1 []], question @ [stepInstruction 10 2 []]]"
  by (simp add: run_simps outOfRangeEnv_def outOfRangeText_def outOfRangeJSON_def
        stepContexts_def feedbackRequest_def synthesisRequest_def trimASCII_def isWhiteSpace_def
        numeral_2_eq_2)

text \<open>
  Claim C6, as stated, fails: the feedback that the generator returns for step 1 is the
  empty string (the model's answer is blank), and the request for step 2 holds the inbound
  messages and the instruction only. The feedback of step 1 is skipped, not injected.
\<close>

theorem blank_feedback_not_injected:
  "attempt outOfRangeEnv question initialSession = Inr (degradedStep 1 ''plain answer'')
   \<and> fst (generateDharmaFeedback (generateText outOfRangeEnv) (trim outOfRangeEnv)
            (dharma (degradedStep 1 ''plain answer'')) [] (DHARMA_TARGET outOfRangeEnv)
            (enter outOfRangeEnv question initialSession)) = []
   \<and> map serverFeedback (allSteps (execute outOfRangeEnv question)) = [[]]
   \<and> stepContexts (execute outOfRangeEnv question) =
       [question @ [stepInstruction 10 1 []], question @ [stepInstruction 10 2 []]]"
proof -
  have "attempt outOfRangeEnv question initialSession = Inr (degradedStep 1 ''plain answer'')"
    by (simp add: run_simps outOfRangeEnv_def)
  moreover have "fst (generateDharmaFeedback (generateText outOfRangeEnv) (trim outOfRangeEnv)
            (dharma (degradedStep 1 ''plain answer'')) [] (DHARMA_TARGET outOfRangeEnv)
            (enter outOfRangeEnv question initialSession)) = []"
    by (simp add: fst_generateDharmaFeedback enter_fields initialSession_def)
       (simp add: outOfRangeEnv_def trimASCII_def isWhiteSpace_def)
  ultimately show ?thesis
    by (simp add: outOfRange_feedback outOfRange_stepContexts)
qed

text \<open>
  Claim C6, amended. Counting the step requests of a session from 0, the first one carries
  the inbound messages and the instruction for step 1, without a feedback note. Request
  number \<open>N\<close>, for \<open>N\<close> from 1 on, is the request for step \<open>N + 1\<close>: it carries the inbound
  messages, then, when the feedback recorded with step \<open>N\<close> is not empty, one assistant note
  that names step \<open>N\<close> and holds exactly that feedback, then the instruction for step
  \<open>N + 1\<close>; when that feedback is the empty string, there is no note. The feedback recorded
  with a step, which is also the value of \<open>previousFeedback\<close> after the iteration, is the
  string that \<open>generateDharmaFeedback\<close> returned in that iteration.
\<close>

theorem feedback_injected_is_previous_feedback:
  "(stepContexts (execute env msgs) \<noteq> [] \<longrightarrow>
      stepContexts (execute env msgs) ! 0 = msgs @ [stepInstruction (DHARMA_MAX_STEPS env) 1 []])
   \<and> (1 \<le> N \<and> N < length (stepContexts (execute env msgs)) \<longrightarrow>
        N \<le> length (allSteps (execute env msgs))
        \<and> (let fb = serverFeedback (allSteps (execute env msgs) ! (N - 1))
           in stepContexts (execute env msgs) ! N =
                msgs @
                (if fb \<noteq> []
                 then [\<lparr>role = ''assistant'',
                        content = Text (''[Server Feedback from Step '' @ show_nat N @ '']: '' @ fb)\<rparr>]
                 else []) @
                [stepInstruction (DHARMA_MAX_STEPS env) (Suc N) fb]))
   \<and> (attempt env msgs st = Inr v \<longrightarrow>
        serverFeedback (last (allSteps (iteration env msgs st))) =
          fst (generateDharmaFeedback (generateText env) (trim env) (dharma v) (scoreHistory st)
                 (DHARMA_TARGET env) (enter env msgs st))
        \<and> previousFeedback (iteration env msgs st) =
          fst (generateDharmaFeedback (generateText env) (trim env) (dharma v) (scoreHistory st)
                 (DHARMA_TARGET env) (enter env msgs st)))"
proof -
  let ?S = "loop env msgs initialSession"
  let ?F = "\<lambda>n. contextMessages (DHARMA_MAX_STEPS env) msgs (Suc n)
                  (if n = 0 then [] else serverFeedback (allSteps ?S ! (n - 1)))"
  have eq: "stepContexts (execute env msgs) = stepContexts ?S"
           "allSteps (execute env msgs) = allSteps ?S"
    by (simp_all add: execute_def stepContexts_fields synthesize_fields)
  have sc: "stepContexts ?S = map ?F [0..<session.stepIndex ?S]"
    using contextsKept_loop[of env msgs] by (simp add: contextsKept_def)
  then have len: "length (stepContexts ?S) = session.stepIndex ?S" by simp
  have nth: "stepContexts ?S ! n = ?F n" if "n < length (stepContexts ?S)" for n
    using that len by (subst sc) simp
  have first: "stepContexts ?S \<noteq> [] \<longrightarrow>
      stepContexts ?S ! 0 = msgs @ [stepInstruction (DHARMA_MAX_STEPS env) 1 []]"
    using nth[of 0] by (simp add: contextMessages_def)
  have later: "1 \<le> N \<and> N < length (stepContexts ?S) \<longrightarrow>
        N \<le> length (allSteps ?S)
        \<and> (let fb = serverFeedback (allSteps ?S ! (N - 1))
           in stepContexts ?S ! N =
                msgs @
                (if fb \<noteq> []
                 then [\<lparr>role = ''assistant'',
                        content = Text (''[Server Feedback from Step '' @ show_nat N @ '']: '' @ fb)\<rparr>]
                 else []) @
                [stepInstruction (DHARMA_MAX_STEPS env) (Suc N) fb])"
  proof (intro impI, elim conjE)
    assume n: "1 \<le> N" "N < length (stepContexts ?S)"
    have "N \<le> length (allSteps ?S)"
      using n(2) len stepIndex_le_Suc_allSteps[of env msgs] by simp
    moreover have "stepContexts ?S ! N = ?F N" using n(2) by (rule nth)
    ultimately show "N \<le> length (allSteps ?S)
        \<and> (let fb = serverFeedback (allSteps ?S ! (N - 1))
           in stepContexts ?S ! N =
                msgs @
                (if fb \<noteq> []
                 then [\<lparr>role = ''assistant'',
                        content = Text (''[Server Feedback from Step '' @ show_nat N @ '']: '' @ fb)\<rparr>]
                 else []) @
                [stepInstruction (DHARMA_MAX_STEPS env) (Suc N) fb])"
      using n(1) by (simp add: contextMessages_def feedbackNote_def Let_def)
  qed
  have gen: "attempt env msgs st = Inr v \<longrightarrow>
        serverFeedback (last (allSteps (iteration env msgs st))) =
          fst (generateDharmaFeedback (generateText env) (trim env) (dharma v) (scoreHistory st)
                 (DHARMA_TARGET env) (enter env msgs st))
        \<and> previousFeedback (iteration env msgs st) =
          fst (generateDharmaFeedback (generateText env) (trim env) (dharma v) (scoreHistory st)
                 (DHARMA_TARGET env) (enter env msgs st))"
    by (simp add: iteration_success completeStep_fields enrich_def stepFeedback_def enter_fields)
  show ?thesis using first later gen unfolding eq by blast
qed


theorem feedback_injected_is_previous_feedback_witness:
  "stepContexts (execute plainEnv question) ! 0 = question @ [stepInstruction 3 1 []]
   \<and> 2 < length (stepContexts (execute plainEnv question))
   \<and> map serverFeedback (allSteps (execute plainEnv question)) =
       [''first advice'', ''second advice'', ''plain answer'']
   \<and> stepContexts (execute plainEnv question) ! 1 =
       question @
       [\<lparr>role = ''assistant'', content = Text ''[Server Feedback from Step 1]: first advice''\<rparr>,
        stepInstruction 3 2 ''first advice'']
   \<and> stepContexts (execute plainEnv question) ! 2 =
       question @
       [\<lparr>role = ''assistant'', content = Text ''[Server Feedback from Step 2]: second advice''\<rparr>,
        stepInstruction 3 3 ''second advice'']
   \<and> 1 < length (stepContexts (execute outOfRangeEnv question))
   \<and> serverFeedback (allSteps (execute outOfRangeEnv question) ! 0) = []
   \<and> stepContexts (execute outOfRangeEnv question) ! 1 = question @ [stepInstruction 10 2 []]
   \<and> attempt plainEnv question initialSession = Inr (degradedStep 1 ''plain answer'')
   \<and> fst (generateDharmaFeedback (generateText plainEnv) (trim plainEnv) (dharma (degradedStep 1 ''plain answer''))
              [] 0.75 (enter plainEnv question initialSession)) = ''first advice''
   \<and> previousFeedback (iteration plainEnv question initialSession) = ''first advice''"
proof -
  have nth: "serverFeedback (allSteps (execute plainEnv question) ! n) =
               map serverFeedback (allSteps (execute plainEnv question)) ! n" if "n < 3" for n
    using that by (simp add: plain_steps)
  have f0: "serverFeedback (allSteps (execute plainEnv question) ! 0) = ''first advice''"
    using nth[of 0] by (simp add: plain_feedback)
  have f1: "serverFeedback (allSteps (execute plainEnv question) ! Suc 0) = ''second advice''"
    using nth[of "Suc 0"] by (simp add: plain_feedback)
  have f2: "serverFeedback (allSteps (execute outOfRangeEnv question) ! 0) = []"
  proof -
    have "serverFeedback (allSteps (execute outOfRangeEnv question) ! 0) =
            map serverFeedback (allSteps (execute outOfRangeEnv question)) ! 0"
      by (simp add: outOfRange_steps)
    then show ?thesis by (simp add: outOfRange_feedback)
  qed
  have ne: "stepContexts (execute plainEnv question) \<noteq> []"
    using plain_contexts by auto
  have start: "scoreHistory initialSession = []" by (simp add: initialSession_def)
  have cfg: "DHARMA_MAX_STEPS plainEnv = 3" "DHARMA_TARGET plainEnv = 0.75"
    "DHARMA_MAX_STEPS outOfRangeEnv = 10"
    by (simp_all add: plainEnv_def outOfRangeEnv_def)
  have gen: "fst (generateDharmaFeedback (generateText plainEnv) (trim plainEnv)
                    (dharma (degradedStep 1 ''plain answer'')) [] 0.75
                    (enter plainEnv question initialSession)) = ''first advice''"
    by (simp add: fst_generateDharmaFeedback enter_fields initialSession_def)
       (simp add: plainEnv_def trimASCII_def isWhiteSpace_def)
  show ?thesis
    using feedback_injected_is_previous_feedback
            [of plainEnv question 1 initialSession "degradedStep 1 ''plain answer''"]
      feedback_injected_is_previous_feedback
            [of plainEnv question 2 initialSession "degradedStep 1 ''plain answer''"]
      feedback_injected_is_previous_feedback
            [of outOfRangeEnv question 1 initialSession "degradedStep 1 ''plain answer''"]
      plain_contexts outOfRange_contexts ne plain_attempt start gen
    by (simp add: f0 f1 f2 cfg plain_feedback Let_def show_nat.simps digit_def numeral_2_eq_2
          numeral_3_eq_3)
qed

end
